theory Spec2Isabelle
  imports Complex_Main
begin

section \<open>Tensors and framework errors\<close>

text \<open>
  The notebooks call the tensor framework for every numeric step. Each framework call is
  written here as the function over the real numbers that the framework documents, and
  each exception it raises is a value of \<open>error\<close>.
\<close>

datatype error =
    IndexError          \<comment> \<open>\<open>x.shape[0]\<close> of a tensor with no dimension\<close>
  | ViewError           \<comment> \<open>\<open>view\<close> cannot give the tensor the shape asked for\<close>
  | SizeMismatch        \<comment> \<open>a linear layer's input width is not its weight's width\<close>
  | BatchSizeMismatch   \<comment> \<open>the loss got a number of targets other than the number of rows\<close>
  | TargetOutOfRange    \<comment> \<open>a target is neither a class index nor \<open>ignore_index\<close>\<close>
  | TopkOutOfRange      \<comment> \<open>\<open>topk(1)\<close> along a dimension of size 0\<close>
  | ZeroDivisionError   \<comment> \<open>Python's division by \<open>len(loader) = 0\<close>\<close>

text \<open>
  A loss or an accuracy is a real number or \<open>nan\<close>: the mean over no element is \<open>nan\<close>,
  it raises nothing, and every sum or quotient it enters is \<open>nan\<close> again.
\<close>

datatype number = Num real | NaN

fun add :: "number \<Rightarrow> number \<Rightarrow> number" where
  "add (Num a) (Num b) = Num (a + b)"
| "add (Num a) NaN = NaN"
| "add NaN b = NaN"

fun divide_by :: "number \<Rightarrow> nat \<Rightarrow> number" where
  "divide_by (Num a) n = Num (a / real n)"
| "divide_by NaN n = NaN"

definition mean :: "real list \<Rightarrow> number" where
  "mean xs = (if xs = [] then NaN else Num (sum_list xs / real (length xs)))"

text \<open>
  A tensor of any rank: its shape, the stride of every dimension (the distance in the
  storage between two neighbours along it) and its elements in the order of their
  indices, the last index running fastest. A tensor as the framework creates it is
  contiguous: the stride of a dimension is the product of the sizes after it, a size of
  0 counting as 1. Transposing or slicing gives other strides to the same elements.
\<close>

record tensor =
  shape :: "nat list"
  stride :: "nat list"
  data :: "real list"

definition wf_tensor :: "tensor \<Rightarrow> bool" where
  "wf_tensor x =
     (length (data x) = prod_list (shape x) \<and> length (stride x) = length (shape x))"

fun contiguous_strides :: "nat list \<Rightarrow> nat list" where
  "contiguous_strides [] = []"
| "contiguous_strides (n # ns) = prod_list (map (max 1) ns) # contiguous_strides ns"

definition contiguous :: "tensor \<Rightarrow> bool" where
  "contiguous x = (stride x = contiguous_strides (shape x))"

text \<open>
  A two-dimensional tensor of shape (rows, columns): its width and the list of its rows.
  The width is kept apart because a tensor of no row has one too.
\<close>

record matrix =
  cols :: nat
  rows :: "real list list"

definition wf_matrix :: "matrix \<Rightarrow> bool" where
  "wf_matrix x = list_all (\<lambda>r. length r = cols x) (rows x)"

text \<open>
  \<^verbatim>\<open>x = x.view(x.shape[0], -1)\<close>: the first dimension is kept and the framework infers the
  second as the element count divided by the first. \<^verbatim>\<open>view\<close> never copies, so it refuses
  a tensor whose dimensions after the first cannot be walked as one: several dimensions
  merge into one when each one's stride is the next one's size times the next one's
  stride, dimensions of size 1 left aside; a tensor of no element always passes. It
  also refuses when there is no first dimension to read and when the first dimension is
  0 (the inferred size would be ambiguous).
\<close>

fun mergeable :: "(nat \<times> nat) list \<Rightarrow> bool" where
  "mergeable ((n1, s1) # (n2, s2) # ds) = (s1 = n2 * s2 \<and> mergeable ((n2, s2) # ds))"
| "mergeable ds = True"

definition flattenable :: "tensor \<Rightarrow> bool" where
  "flattenable x =
     (prod_list (shape x) = 0 \<or>
      mergeable (filter (\<lambda>(n, s). n \<noteq> 1) (zip (tl (shape x)) (tl (stride x)))))"

definition view_flat :: "tensor \<Rightarrow> error + matrix" where
  "view_flat x =
     (case shape x of
        [] \<Rightarrow> Inl IndexError
      | b # rest \<Rightarrow>
          (let k = prod_list rest in
           if b = 0 then Inl ViewError
           else if \<not> flattenable x then Inl ViewError
           else Inr \<lparr>cols = k, rows = map (\<lambda>i. take k (drop (i * k) (data x))) [0..<b]\<rparr>))"

section \<open>Layers\<close>

text \<open>
  \<^verbatim>\<open>nn.Linear(in_features, out_features)\<close> holds a weight of shape
  (out_features, in_features) and a bias of shape (out_features).
\<close>

record linear =
  in_features :: nat
  out_features :: nat
  weight :: "real list list"
  bias :: "real list"

definition wf_linear :: "linear \<Rightarrow> bool" where
  "wf_linear l =
     (length (weight l) = out_features l \<and>
      list_all (\<lambda>r. length r = in_features l) (weight l) \<and>
      length (bias l) = out_features l)"

definition dot :: "real list \<Rightarrow> real list \<Rightarrow> real" where
  "dot u v = sum_list (map2 (*) u v)"

definition linear_row :: "linear \<Rightarrow> real list \<Rightarrow> real list" where
  "linear_row l x = map2 (\<lambda>w b. dot w x + b) (weight l) (bias l)"

text \<open>Calling the layer on a batch: \<open>x W\<^sup>T + b\<close>, or a size mismatch when the width of
  the batch is not the layer's \<open>in_features\<close>.\<close>

definition Linear_forward :: "linear \<Rightarrow> matrix \<Rightarrow> error + matrix" where
  "Linear_forward l x =
     (if cols x = in_features l
      then Inr \<lparr>cols = out_features l, rows = map (linear_row l) (rows x)\<rparr>
      else Inl SizeMismatch)"

text \<open>\<^verbatim>\<open>F.relu\<close>, elementwise \<open>max(0, x)\<close>.\<close>

definition relu :: "matrix \<Rightarrow> matrix" where
  "relu x = x\<lparr>rows := map (map (max 0)) (rows x)\<rparr>"

text \<open>
  \<^verbatim>\<open>F.log_softmax(x, dim=1)\<close>: for every row, subtract the row's maximum, then the
  logarithm of the sum of the exponentials.
\<close>

definition row_max :: "real list \<Rightarrow> real" where
  "row_max xs = fold max (tl xs) (hd xs)"

definition log_softmax_row :: "real list \<Rightarrow> real list" where
  "log_softmax_row xs =
     (if xs = [] then []
      else (let m = row_max xs;
                s = ln (sum_list (map (\<lambda>v. exp (v - m)) xs))
            in map (\<lambda>v. v - m - s) xs))"

definition log_softmax :: "matrix \<Rightarrow> matrix" where
  "log_softmax x = x\<lparr>rows := map log_softmax_row (rows x)\<rparr>"

section \<open>The classifier of the validation notebook\<close>

text \<open>
  \<^verbatim>\<open>
  class Classifier(nn.Module):
      def __init__(self):
          self.fc1 = nn.Linear(784, 256)
          self.fc2 = nn.Linear(256, 128)
          self.fc3 = nn.Linear(128, 64)
          self.fc4 = nn.Linear(64, 10)
      def forward(self, x):
          x = x.view(x.shape[0], -1)
          x = F.relu(self.fc1(x))
          x = F.relu(self.fc2(x))
          x = F.relu(self.fc3(x))
          x = F.log_softmax(self.fc4(x), dim=1)
          return x
  \<close>
\<close>

record classifier =
  fc1 :: linear
  fc2 :: linear
  fc3 :: linear
  fc4 :: linear

text \<open>What \<^verbatim>\<open>__init__\<close> fixes: the four layers' sizes. The initial values are the
  framework's random draw, so they are left free.\<close>

definition sized :: "nat \<Rightarrow> nat \<Rightarrow> linear \<Rightarrow> bool" where
  "sized i out l = (in_features l = i \<and> out_features l = out \<and> wf_linear l)"

definition Classifier_init :: "classifier \<Rightarrow> bool" where
  "Classifier_init c =
     (sized 784 256 (fc1 c) \<and> sized 256 128 (fc2 c) \<and>
      sized 128 64 (fc3 c) \<and> sized 64 10 (fc4 c))"

definition Classifier_forward :: "classifier \<Rightarrow> tensor \<Rightarrow> error + matrix" where
  "Classifier_forward c x =
     (case view_flat x of Inl e \<Rightarrow> Inl e | Inr x0 \<Rightarrow>
      case Linear_forward (fc1 c) x0 of Inl e \<Rightarrow> Inl e | Inr a1 \<Rightarrow>
      case Linear_forward (fc2 c) (relu a1) of Inl e \<Rightarrow> Inl e | Inr a2 \<Rightarrow>
      case Linear_forward (fc3 c) (relu a2) of Inl e \<Rightarrow> Inl e | Inr a3 \<Rightarrow>
      case Linear_forward (fc4 c) (relu a3) of Inl e \<Rightarrow> Inl e | Inr a4 \<Rightarrow>
      Inr (log_softmax a4))"

text \<open>The network of the specification's example scenario: every weight and bias zero.\<close>

definition zero_linear :: "nat \<Rightarrow> nat \<Rightarrow> linear" where
  "zero_linear i out =
     \<lparr>in_features = i, out_features = out,
      weight = replicate out (replicate i 0), bias = replicate out 0\<rparr>"

definition zero_classifier :: classifier where
  "zero_classifier =
     \<lparr>fc1 = zero_linear 784 256, fc2 = zero_linear 256 128,
      fc3 = zero_linear 128 64, fc4 = zero_linear 64 10\<rparr>"

text \<open>
  The scores before the last call of \<^verbatim>\<open>forward\<close>, that is \<^verbatim>\<open>self.fc4(x)\<close>.
\<close>

definition Classifier_logits :: "classifier \<Rightarrow> tensor \<Rightarrow> error + matrix" where
  "Classifier_logits c x =
     (case view_flat x of Inl e \<Rightarrow> Inl e | Inr x0 \<Rightarrow>
      case Linear_forward (fc1 c) x0 of Inl e \<Rightarrow> Inl e | Inr a1 \<Rightarrow>
      case Linear_forward (fc2 c) (relu a1) of Inl e \<Rightarrow> Inl e | Inr a2 \<Rightarrow>
      case Linear_forward (fc3 c) (relu a2) of Inl e \<Rightarrow> Inl e | Inr a3 \<Rightarrow>
      Linear_forward (fc4 c) (relu a3))"

section \<open>Dropout\<close>

text \<open>
  \<^verbatim>\<open>nn.Dropout(p)\<close> in training mode draws one Bernoulli sample per element, 1 with
  probability \<open>1 - p\<close>, and returns \<open>input * sample / (1 - p)\<close>; in evaluation mode it
  returns its input and draws nothing. The samples of one call are a \<open>mask\<close>: the sample
  for row \<open>i\<close>, column \<open>j\<close> is \<open>m i j\<close>, true when the element is kept.
\<close>

type_synonym mask = "nat \<Rightarrow> nat \<Rightarrow> bool"

definition dropout_elem :: "real \<Rightarrow> bool \<Rightarrow> real \<Rightarrow> real" where
  "dropout_elem p keep v = (if keep then v / (1 - p) else 0)"

definition Dropout_forward :: "real \<Rightarrow> bool \<Rightarrow> mask \<Rightarrow> matrix \<Rightarrow> matrix" where
  "Dropout_forward p training m x =
     (if training
      then x\<lparr>rows := map (\<lambda>(i, row). map (\<lambda>(j, v). dropout_elem p (m i j) v) (enumerate 0 row))
                        (enumerate 0 (rows x))\<rparr>
      else x)"





text \<open>
  \<^verbatim>\<open>
  class Classifier(nn.Module):
      def __init__(self):
          ... fc1 to fc4 as before ...
          self.dropout = nn.Dropout(p = 0.2)
      def forward(self, x):
          x = x.view(x.shape[0], -1)
          x = self.dropout(F.relu(self.fc1(x)))
          x = self.dropout(F.relu(self.fc2(x)))
          x = self.dropout(F.relu(self.fc3(x)))
          x = F.log_softmax(self.fc4(x), dim=1)
          return x
  \<close>
  The module's mode and the masks of its three dropout calls are arguments.
\<close>

definition dropout_p :: real where
  "dropout_p = 0.2"

definition Classifier_dropout_forward ::
  "bool \<Rightarrow> mask \<Rightarrow> mask \<Rightarrow> mask \<Rightarrow> classifier \<Rightarrow> tensor \<Rightarrow> error + matrix" where
  "Classifier_dropout_forward training m1 m2 m3 c x =
     (case view_flat x of Inl e \<Rightarrow> Inl e | Inr x0 \<Rightarrow>
      case Linear_forward (fc1 c) x0 of Inl e \<Rightarrow> Inl e | Inr a1 \<Rightarrow>
      case Linear_forward (fc2 c) (Dropout_forward dropout_p training m1 (relu a1)) of
        Inl e \<Rightarrow> Inl e | Inr a2 \<Rightarrow>
      case Linear_forward (fc3 c) (Dropout_forward dropout_p training m2 (relu a2)) of
        Inl e \<Rightarrow> Inl e | Inr a3 \<Rightarrow>
      case Linear_forward (fc4 c) (Dropout_forward dropout_p training m3 (relu a3)) of
        Inl e \<Rightarrow> Inl e | Inr a4 \<Rightarrow>
      Inr (log_softmax a4))"

section \<open>The sequential model of the training notebook\<close>

text \<open>
  \<^verbatim>\<open>
  model = nn.Sequential(nn.Linear(784, 128), nn.ReLU(),
                        nn.Linear(128, 64), nn.ReLU(),
                        nn.Linear(64, 10), nn.LogSoftmax(dim=1))
  \<close>
\<close>

datatype module = Linear linear | ReLU | LogSoftmax

fun module_forward :: "module \<Rightarrow> matrix \<Rightarrow> error + matrix" where
  "module_forward (Linear l) x = Linear_forward l x"
| "module_forward ReLU x = Inr (relu x)"
| "module_forward LogSoftmax x = Inr (log_softmax x)"

fun Sequential_forward :: "module list \<Rightarrow> matrix \<Rightarrow> error + matrix" where
  "Sequential_forward [] x = Inr x"
| "Sequential_forward (m # ms) x =
     (case module_forward m x of Inl e \<Rightarrow> Inl e | Inr y \<Rightarrow> Sequential_forward ms y)"

definition Sequential :: "linear \<Rightarrow> linear \<Rightarrow> linear \<Rightarrow> module list" where
  "Sequential l0 l2 l4 = [Linear l0, ReLU, Linear l2, ReLU, Linear l4, LogSoftmax]"

definition Sequential_init :: "linear \<Rightarrow> linear \<Rightarrow> linear \<Rightarrow> bool" where
  "Sequential_init l0 l2 l4 = (sized 784 128 l0 \<and> sized 128 64 l2 \<and> sized 64 10 l4)"

section \<open>Loss and accuracy\<close>

text \<open>
  \<^verbatim>\<open>criterion = nn.NLLLoss()\<close> with the defaults: the mean, over the rows whose target is
  not \<open>ignore_index = -100\<close>, of minus the log-probability at the target. The classes are
  the columns of its input.
\<close>

definition ignore_index :: int where
  "ignore_index = - 100"

definition valid_target :: "nat \<Rightarrow> int \<Rightarrow> bool" where
  "valid_target classes t = (t = ignore_index \<or> (0 \<le> t \<and> t < int classes))"

definition nll_loss :: "matrix \<Rightarrow> int list \<Rightarrow> error + number" where
  "nll_loss log_ps labels =
     (if length (rows log_ps) \<noteq> length labels then Inl BatchSizeMismatch
      else if \<not> list_all (valid_target (cols log_ps)) labels then Inl TargetOutOfRange
      else Inr (mean (map (\<lambda>(row, t). - (row ! nat t))
                       (filter (\<lambda>(row, t). t \<noteq> ignore_index) (zip (rows log_ps) labels)))))"

text \<open>
  \<^verbatim>\<open>top_p, top_class = probabilities.topk(1, dim = 1)\<close>: for every row the index of a largest
  entry. Which index the framework returns when several entries are largest is not
  documented, and it is not always the first. The choice among them is the function
  \<open>ties\<close>: its value is taken whenever it is the index of a largest entry of the row, so
  every rule the framework may follow is one value of \<open>ties\<close>.
\<close>

definition largest :: "real list \<Rightarrow> nat \<Rightarrow> bool" where
  "largest row k = (k < length row \<and> list_all (\<lambda>v. v \<le> row ! k) row)"

definition first_largest :: "real list \<Rightarrow> nat" where
  "first_largest row = length (takeWhile (\<lambda>v. v < row_max row) row)"

definition top_index :: "(real list \<Rightarrow> nat) \<Rightarrow> real list \<Rightarrow> nat" where
  "top_index ties row = (if largest row (ties row) then ties row else first_largest row)"

definition topk1 :: "(real list \<Rightarrow> nat) \<Rightarrow> matrix \<Rightarrow> error + nat list" where
  "topk1 ties ps =
     (if cols ps = 0 then Inl TopkOutOfRange else Inr (map (top_index ties) (rows ps)))"

text \<open>
  \<^verbatim>\<open>
  probabilities = torch.exp(test_log_probabilities)
  top_p, top_class = probabilities.topk(1, dim = 1)
  equality_tensor = top_class == labels.view(*top_class.shape)
  ... torch.mean(equality_tensor.type(torch.FloatTensor))
  \<close>
\<close>

definition batch_accuracy :: "(real list \<Rightarrow> nat) \<Rightarrow> matrix \<Rightarrow> int list \<Rightarrow> error + number" where
  "batch_accuracy ties log_ps labels =
     (let probabilities = log_ps\<lparr>rows := map (map exp) (rows log_ps)\<rparr> in
      case topk1 ties probabilities of Inl e \<Rightarrow> Inl e | Inr top_classes \<Rightarrow>
        if length labels \<noteq> length top_classes then Inl ViewError
        else (let equality_tensor = map2 (\<lambda>c t. int c = t) top_classes labels
              in Inr (mean (map (\<lambda>b. if b then 1 else 0) equality_tensor))))"

section \<open>Parameters and optimizers\<close>

text \<open>Elementwise operations on every parameter tensor of a model.\<close>

definition linear_map :: "(real \<Rightarrow> real) \<Rightarrow> linear \<Rightarrow> linear" where
  "linear_map f l = l\<lparr>weight := map (map f) (weight l), bias := map f (bias l)\<rparr>"

definition linear_map2 :: "(real \<Rightarrow> real \<Rightarrow> real) \<Rightarrow> linear \<Rightarrow> linear \<Rightarrow> linear" where
  "linear_map2 f l g =
     l\<lparr>weight := map2 (map2 f) (weight l) (weight g), bias := map2 f (bias l) (bias g)\<rparr>"

definition classifier_map :: "(real \<Rightarrow> real) \<Rightarrow> classifier \<Rightarrow> classifier" where
  "classifier_map f c =
     \<lparr>fc1 = linear_map f (fc1 c), fc2 = linear_map f (fc2 c),
      fc3 = linear_map f (fc3 c), fc4 = linear_map f (fc4 c)\<rparr>"

definition classifier_map2 ::
  "(real \<Rightarrow> real \<Rightarrow> real) \<Rightarrow> classifier \<Rightarrow> classifier \<Rightarrow> classifier" where
  "classifier_map2 f c g =
     \<lparr>fc1 = linear_map2 f (fc1 c) (fc1 g), fc2 = linear_map2 f (fc2 c) (fc2 g),
      fc3 = linear_map2 f (fc3 c) (fc3 g), fc4 = linear_map2 f (fc4 c) (fc4 g)\<rparr>"

fun module_map :: "(real \<Rightarrow> real) \<Rightarrow> module \<Rightarrow> module" where
  "module_map f (Linear l) = Linear (linear_map f l)"
| "module_map f ReLU = ReLU"
| "module_map f LogSoftmax = LogSoftmax"

fun module_map2 :: "(real \<Rightarrow> real \<Rightarrow> real) \<Rightarrow> module \<Rightarrow> module \<Rightarrow> module" where
  "module_map2 f (Linear l) (Linear g) = Linear (linear_map2 f l g)"
| "module_map2 f m g = m"

definition sequential_map :: "(real \<Rightarrow> real) \<Rightarrow> module list \<Rightarrow> module list" where
  "sequential_map f ms = map (module_map f) ms"

definition sequential_map2 ::
  "(real \<Rightarrow> real \<Rightarrow> real) \<Rightarrow> module list \<Rightarrow> module list \<Rightarrow> module list" where
  "sequential_map2 f ms gs = map2 (module_map2 f) ms gs"

text \<open>
  \<^verbatim>\<open>optim.SGD(model.parameters(), lr)\<close> with the defaults (no momentum, no weight decay):
  \<^verbatim>\<open>p.data.add_(-lr, p.grad.data)\<close> for every parameter.
\<close>

definition SGD ::
  "((real \<Rightarrow> real \<Rightarrow> real) \<Rightarrow> 'p \<Rightarrow> 'p \<Rightarrow> 'p) \<Rightarrow> real \<Rightarrow> 'p \<Rightarrow> 'p \<Rightarrow> unit \<Rightarrow> 'p \<times> unit" where
  "SGD pm2 lr p g s = (pm2 (\<lambda>w d. w - lr * d) p g, ())"

text \<open>
  \<^verbatim>\<open>optim.Adam(model.parameters(), lr)\<close> with the defaults \<open>betas = (0.9, 0.999)\<close>,
  \<open>eps = 1e-8\<close>, as the framework documents the algorithm: running means of the gradient
  and of its square, both corrected for their start at zero; the step is the learning
  rate times the first, divided by the root of the second plus \<open>eps\<close>. The state is
  created at the first step.
\<close>

record 'p adam_state =
  step_count :: nat
  exp_avg :: 'p
  exp_avg_sq :: 'p

definition beta1 :: real where "beta1 = 0.9"
definition beta2 :: real where "beta2 = 0.999"
definition adam_eps :: real where "adam_eps = 1 / 10 ^ 8"

definition Adam ::
  "((real \<Rightarrow> real) \<Rightarrow> 'p \<Rightarrow> 'p) \<Rightarrow> ((real \<Rightarrow> real \<Rightarrow> real) \<Rightarrow> 'p \<Rightarrow> 'p \<Rightarrow> 'p) \<Rightarrow> real \<Rightarrow>
   'p \<Rightarrow> 'p \<Rightarrow> 'p adam_state option \<Rightarrow> 'p \<times> 'p adam_state option" where
  "Adam pm pm2 lr p g s =
     (let s0 = (case s of
                  None \<Rightarrow> \<lparr>step_count = 0, exp_avg = pm (\<lambda>_. 0) p, exp_avg_sq = pm (\<lambda>_. 0) p\<rparr>
                | Some s' \<Rightarrow> s');
          t = step_count s0 + 1;
          m = pm2 (\<lambda>a d. beta1 * a + (1 - beta1) * d) (exp_avg s0) g;
          v = pm2 (\<lambda>a d. beta2 * a + (1 - beta2) * d * d) (exp_avg_sq s0) g;
          bias_correction1 = 1 - beta1 ^ t;
          bias_correction2 = 1 - beta2 ^ t;
          denom = pm (\<lambda>a. sqrt (a / bias_correction2) + adam_eps) v;
          step_size = lr / bias_correction1
      in (pm2 (\<lambda>w u. w - step_size * u) p (pm2 (/) m denom),
          Some \<lparr>step_count = t, exp_avg = m, exp_avg_sq = v\<rparr>))"

section \<open>The training session\<close>

text \<open>
  What the loops change: the parameter tensors, their gradient buffers (\<open>p.grad\<close>, which
  is \<open>None\<close> until the first backward pass), the optimizer's own state, the module's mode
  and the number of dropout masks drawn so far. \<open>trace\<close> lists the framework calls in the
  order the loop made them.
\<close>

datatype event =
  ZeroGrad | Forward | Loss | Backward | Step | Eval | Train | Accuracy | Print "number list"

record ('p, 'o) session =
  params :: 'p
  grad :: "'p option"
  opt :: 'o
  training :: bool
  draws :: nat
  trace :: "event list"

text \<open>
  What a loop's cell fixes before the loop: the model, the criterion and the optimizer.
  The model gets the mode and the position in the stream of dropout masks; \<open>consumed\<close>
  is the number of masks one call in training mode draws. The reverse-mode
  differentiation of the framework is the function \<open>autograd\<close>: the gradient of the
  batch's loss with respect to every parameter, a value of the parameters' type. \<open>ties\<close>
  is the framework's choice among the largest entries of a row.
\<close>

record ('p, 'o, 'x) trainer =
  model :: "bool \<Rightarrow> nat \<Rightarrow> 'p \<Rightarrow> 'x \<Rightarrow> error + matrix"
  consumed :: nat
  criterion :: "matrix \<Rightarrow> int list \<Rightarrow> error + number"
  optimizer :: "'p \<Rightarrow> 'p \<Rightarrow> 'o \<Rightarrow> 'p \<times> 'o"
  autograd :: "bool \<Rightarrow> nat \<Rightarrow> 'p \<Rightarrow> 'x \<times> int list \<Rightarrow> 'p"
  pmap :: "(real \<Rightarrow> real) \<Rightarrow> 'p \<Rightarrow> 'p"
  pmap2 :: "(real \<Rightarrow> real \<Rightarrow> real) \<Rightarrow> 'p \<Rightarrow> 'p \<Rightarrow> 'p"
  ties :: "real list \<Rightarrow> nat"

definition emit :: "event \<Rightarrow> ('p, 'o) session \<Rightarrow> ('p, 'o) session" where
  "emit e st = st\<lparr>trace := trace st @ [e]\<rparr>"

text \<open>\<^verbatim>\<open>optimizer.zero_grad()\<close>: every buffer that exists is set to zero.\<close>

definition zero_grad :: "('p, 'o, 'x) trainer \<Rightarrow> ('p, 'o) session \<Rightarrow> ('p, 'o) session" where
  "zero_grad S st = emit ZeroGrad (st\<lparr>grad := map_option (pmap S (\<lambda>_. 0)) (grad st)\<rparr>)"

text \<open>\<^verbatim>\<open>model(images)\<close>\<close>

definition model_call ::
  "('p, 'o, 'x) trainer \<Rightarrow> ('p, 'o) session \<Rightarrow> 'x \<Rightarrow> error + matrix \<times> ('p, 'o) session" where
  "model_call S st images =
     (case model S (training st) (draws st) (params st) images of
        Inl e \<Rightarrow> Inl e
      | Inr out \<Rightarrow>
          Inr (out, emit Forward
                 (st\<lparr>draws := draws st + (if training st then consumed S else 0)\<rparr>)))"

text \<open>\<^verbatim>\<open>loss.backward()\<close>: the gradient is added to the buffers, or stored where there
  is none yet.\<close>

definition loss_backward ::
  "('p, 'o, 'x) trainer \<Rightarrow> 'p \<Rightarrow> ('p, 'o) session \<Rightarrow> ('p, 'o) session" where
  "loss_backward S g st =
     emit Backward
       (st\<lparr>grad := Some (case grad st of None \<Rightarrow> g | Some a \<Rightarrow> pmap2 S (+) a g)\<rparr>)"

text \<open>\<^verbatim>\<open>optimizer.step()\<close>: parameters without a gradient are skipped.\<close>

definition optimizer_step ::
  "('p, 'o, 'x) trainer \<Rightarrow> ('p, 'o) session \<Rightarrow> ('p, 'o) session" where
  "optimizer_step S st =
     emit Step
       (case grad st of
          None \<Rightarrow> st
        | Some g \<Rightarrow>
            (let r = optimizer S (params st) g (opt st)
             in st\<lparr>params := fst r, opt := snd r\<rparr>))"

definition model_eval :: "('p, 'o) session \<Rightarrow> ('p, 'o) session" where
  "model_eval st = emit Eval (st\<lparr>training := False\<rparr>)"

definition model_train :: "('p, 'o) session \<Rightarrow> ('p, 'o) session" where
  "model_train st = emit Train (st\<lparr>training := True\<rparr>)"

text \<open>
  The body of every training loop:
  \<^verbatim>\<open>
  optimizer.zero_grad()
  log_ps = model(images)
  loss = criterion(log_ps, labels)
  loss.backward()
  optimizer.step()
  \<close>
\<close>

definition train_batch ::
  "('p, 'o, 'x) trainer \<Rightarrow> ('p, 'o) session \<Rightarrow> 'x \<times> int list \<Rightarrow>
   error + number \<times> ('p, 'o) session" where
  "train_batch S st batch =
     (let st1 = zero_grad S st in
      case model_call S st1 (fst batch) of Inl e \<Rightarrow> Inl e | Inr (log_ps, st2) \<Rightarrow>
      case criterion S log_ps (snd batch) of Inl e \<Rightarrow> Inl e | Inr loss \<Rightarrow>
        Inr (loss,
             optimizer_step S
               (loss_backward S (autograd S (training st1) (draws st1) (params st1) batch)
                  (emit Loss st2))))"

text \<open>\<^verbatim>\<open>for images, labels in trainloader: ...; running_loss += loss.item()\<close>\<close>

fun train_batches ::
  "('p, 'o, 'x) trainer \<Rightarrow> ('p, 'o) session \<Rightarrow> number \<Rightarrow> ('x \<times> int list) list \<Rightarrow>
   error + number \<times> ('p, 'o) session" where
  "train_batches S st running_loss [] = Inr (running_loss, st)"
| "train_batches S st running_loss (b # bs) =
     (case train_batch S st b of
        Inl e \<Rightarrow> Inl e
      | Inr (loss, st') \<Rightarrow> train_batches S st' (add running_loss loss) bs)"

text \<open>
  The validation pass, inside \<^verbatim>\<open>with torch.no_grad():\<close>
  \<^verbatim>\<open>
  for images, labels in testloader:
      test_log_probabilities = model(images)
      test_loss += criterion(test_log_probabilities, labels)
      ... accuracy += torch.mean(equality_tensor.type(torch.FloatTensor))
  \<close>
\<close>

fun validation_batches ::
  "('p, 'o, 'x) trainer \<Rightarrow> ('p, 'o) session \<Rightarrow> number \<Rightarrow> number \<Rightarrow>
   ('x \<times> int list) list \<Rightarrow> error + number \<times> number \<times> ('p, 'o) session" where
  "validation_batches S st test_loss accuracy [] = Inr (test_loss, accuracy, st)"
| "validation_batches S st test_loss accuracy (b # bs) =
     (case model_call S st (fst b) of Inl e \<Rightarrow> Inl e | Inr (log_ps, st1) \<Rightarrow>
      case criterion S log_ps (snd b) of Inl e \<Rightarrow> Inl e | Inr l \<Rightarrow>
      case batch_accuracy (ties S) log_ps (snd b) of Inl e \<Rightarrow> Inl e | Inr a \<Rightarrow>
        validation_batches S (emit Accuracy (emit Loss st1)) (add test_loss l) (add accuracy a)
          bs)"

text \<open>
  A loader shuffles: the batches of its \<open>e\<close>-th pass are \<open>loader e\<close>, and \<open>len(loader)\<close> is
  their number.

  The loop of the training notebook:
  \<^verbatim>\<open>
  for e in range(epochs):
      running_loss = 0
      for images, labels in trainloader:
          images = images.view(images.shape[0], -1)
          ... the training body ...
      else:
          print(f"Training loss: {running_loss/len(trainloader)}")
  \<close>
\<close>

fun flat_train_batches ::
  "('p, 'o, matrix) trainer \<Rightarrow> ('p, 'o) session \<Rightarrow> number \<Rightarrow> (tensor \<times> int list) list \<Rightarrow>
   error + number \<times> ('p, 'o) session" where
  "flat_train_batches S st running_loss [] = Inr (running_loss, st)"
| "flat_train_batches S st running_loss (b # bs) =
     (case view_flat (fst b) of Inl e \<Rightarrow> Inl e | Inr images \<Rightarrow>
      case train_batch S st (images, snd b) of
        Inl e \<Rightarrow> Inl e
      | Inr (loss, st') \<Rightarrow> flat_train_batches S st' (add running_loss loss) bs)"

fun training_epochs ::
  "('p, 'o, matrix) trainer \<Rightarrow> (nat \<Rightarrow> (tensor \<times> int list) list) \<Rightarrow> ('p, 'o) session \<Rightarrow>
   nat list \<Rightarrow> error + ('p, 'o) session" where
  "training_epochs S trainloader st [] = Inr st"
| "training_epochs S trainloader st (e # es) =
     (case flat_train_batches S st (Num 0) (trainloader e) of
        Inl err \<Rightarrow> Inl err
      | Inr (running_loss, st1) \<Rightarrow>
          if length (trainloader e) = 0 then Inl ZeroDivisionError
          else training_epochs S trainloader
                 (emit (Print [divide_by running_loss (length (trainloader e))]) st1) es)"

definition training_loop ::
  "('p, 'o, matrix) trainer \<Rightarrow> (nat \<Rightarrow> (tensor \<times> int list) list) \<Rightarrow> nat \<Rightarrow>
   ('p, 'o) session \<Rightarrow> error + ('p, 'o) session" where
  "training_loop S trainloader epochs st = training_epochs S trainloader st [0..<epochs]"

text \<open>
  The first loop of the validation notebook: the training body for every batch, then,
  in the loop's \<^verbatim>\<open>else\<close>, the validation pass and the report
  \<^verbatim>\<open>
  print("Epoch: {}/{}.. ".format(e+1, epochs),
        "Training Loss: {:.3f}.. ".format(running_loss/len(trainloader)),
        "Test Loss: {:.3f}.. ".format(test_loss/len(testloader)),
        "Test Accuracy: {:.3f}".format(accuracy/len(testloader)))
  \<close>
\<close>

definition report ::
  "nat \<Rightarrow> nat \<Rightarrow> number \<Rightarrow> nat \<Rightarrow> number \<Rightarrow> number \<Rightarrow> nat \<Rightarrow> error + event" where
  "report e epochs running_loss len_train test_loss accuracy len_test =
     (if len_train = 0 then Inl ZeroDivisionError
      else if len_test = 0 then Inl ZeroDivisionError
      else Inr (Print [Num (real (e + 1)), Num (real epochs),
                       divide_by running_loss len_train,
                       divide_by test_loss len_test, divide_by accuracy len_test]))"

fun validated_epochs ::
  "('p, 'o, 'x) trainer \<Rightarrow> (nat \<Rightarrow> ('x \<times> int list) list) \<Rightarrow> (nat \<Rightarrow> ('x \<times> int list) list) \<Rightarrow>
   nat \<Rightarrow> ('p, 'o) session \<Rightarrow> nat list \<Rightarrow> error + ('p, 'o) session" where
  "validated_epochs S trainloader testloader epochs st [] = Inr st"
| "validated_epochs S trainloader testloader epochs st (e # es) =
     (case train_batches S st (Num 0) (trainloader e) of
        Inl err \<Rightarrow> Inl err
      | Inr (running_loss, st1) \<Rightarrow>
     (case validation_batches S st1 (Num 0) (Num 0) (testloader e) of
        Inl err \<Rightarrow> Inl err
      | Inr (test_loss, accuracy, st2) \<Rightarrow>
     (case report e epochs running_loss (length (trainloader e)) test_loss accuracy
             (length (testloader e)) of
        Inl err \<Rightarrow> Inl err
      | Inr line \<Rightarrow> validated_epochs S trainloader testloader epochs (emit line st2) es)))"

definition validated_loop ::
  "('p, 'o, 'x) trainer \<Rightarrow> (nat \<Rightarrow> ('x \<times> int list) list) \<Rightarrow> (nat \<Rightarrow> ('x \<times> int list) list) \<Rightarrow>
   nat \<Rightarrow> ('p, 'o) session \<Rightarrow> error + ('p, 'o) session" where
  "validated_loop S trainloader testloader epochs st =
     validated_epochs S trainloader testloader epochs st [0..<epochs]"

text \<open>
  The loop of the model with dropout: as before, with \<^verbatim>\<open>model.eval()\<close> before the
  validation pass and \<^verbatim>\<open>model.train()\<close> after the report.
\<close>

fun dropout_epochs ::
  "('p, 'o, 'x) trainer \<Rightarrow> (nat \<Rightarrow> ('x \<times> int list) list) \<Rightarrow> (nat \<Rightarrow> ('x \<times> int list) list) \<Rightarrow>
   nat \<Rightarrow> ('p, 'o) session \<Rightarrow> nat list \<Rightarrow> error + ('p, 'o) session" where
  "dropout_epochs S trainloader testloader epochs st [] = Inr st"
| "dropout_epochs S trainloader testloader epochs st (e # es) =
     (case train_batches S st (Num 0) (trainloader e) of
        Inl err \<Rightarrow> Inl err
      | Inr (running_loss, st1) \<Rightarrow>
     (case validation_batches S (model_eval st1) (Num 0) (Num 0) (testloader e) of
        Inl err \<Rightarrow> Inl err
      | Inr (test_loss, accuracy, st2) \<Rightarrow>
     (case report e epochs running_loss (length (trainloader e)) test_loss accuracy
             (length (testloader e)) of
        Inl err \<Rightarrow> Inl err
      | Inr line \<Rightarrow>
          dropout_epochs S trainloader testloader epochs (model_train (emit line st2)) es)))"

definition dropout_loop ::
  "('p, 'o, 'x) trainer \<Rightarrow> (nat \<Rightarrow> ('x \<times> int list) list) \<Rightarrow> (nat \<Rightarrow> ('x \<times> int list) list) \<Rightarrow>
   nat \<Rightarrow> ('p, 'o) session \<Rightarrow> error + ('p, 'o) session" where
  "dropout_loop S trainloader testloader epochs st =
     dropout_epochs S trainloader testloader epochs st [0..<epochs]"

section \<open>The three cells\<close>

text \<open>
  \<^verbatim>\<open>optimizer = optim.SGD(model.parameters(), lr=0.003)\<close> on the sequential model;
  \<^verbatim>\<open>optim.Adam(model.parameters(), lr=0.003)\<close> on the classifier;
  \<^verbatim>\<open>optim.Adam(model.parameters(), lr = 0.004)\<close> on the classifier with dropout, whose
  masks come from the generator \<open>gen\<close>. The criterion is \<^verbatim>\<open>nn.NLLLoss()\<close> in all three.
  The training notebook computes no accuracy, so no choice among largest entries enters
  it.
\<close>

definition training_notebook ::
  "(bool \<Rightarrow> nat \<Rightarrow> module list \<Rightarrow> matrix \<times> int list \<Rightarrow> module list) \<Rightarrow>
   (module list, unit, matrix) trainer" where
  "training_notebook ag =
     \<lparr>model = (\<lambda>mode pos ms x. Sequential_forward ms x), consumed = 0,
      criterion = nll_loss, optimizer = SGD sequential_map2 0.003, autograd = ag,
      pmap = sequential_map, pmap2 = sequential_map2, ties = first_largest\<rparr>"

definition validation_notebook ::
  "(real list \<Rightarrow> nat) \<Rightarrow> (bool \<Rightarrow> nat \<Rightarrow> classifier \<Rightarrow> tensor \<times> int list \<Rightarrow> classifier) \<Rightarrow>
   (classifier, classifier adam_state option, tensor) trainer" where
  "validation_notebook tie ag =
     \<lparr>model = (\<lambda>mode pos c x. Classifier_forward c x), consumed = 0,
      criterion = nll_loss, optimizer = Adam classifier_map classifier_map2 0.003,
      autograd = ag, pmap = classifier_map, pmap2 = classifier_map2, ties = tie\<rparr>"

definition dropout_notebook ::
  "(real list \<Rightarrow> nat) \<Rightarrow> (nat \<Rightarrow> mask) \<Rightarrow>
   (bool \<Rightarrow> nat \<Rightarrow> classifier \<Rightarrow> tensor \<times> int list \<Rightarrow> classifier) \<Rightarrow>
   (classifier, classifier adam_state option, tensor) trainer" where
  "dropout_notebook tie gen ag =
     \<lparr>model = (\<lambda>mode pos c x.
         Classifier_dropout_forward mode (gen pos) (gen (pos + 1)) (gen (pos + 2)) c x),
      consumed = 3,
      criterion = nll_loss, optimizer = Adam classifier_map classifier_map2 0.004,
      autograd = ag, pmap = classifier_map, pmap2 = classifier_map2, ties = tie\<rparr>"

text \<open>A fresh model and optimizer: training mode, no gradient buffer yet.\<close>

definition new_session :: "'p \<Rightarrow> 'o \<Rightarrow> ('p, 'o) session" where
  "new_session p s =
     \<lparr>params = p, grad = None, opt = s, training = True, draws = 0, trace = []\<rparr>"

section \<open>The predictor the specification describes\<close>

text \<open>
  In the specification's words: a sequence of affine transforms \<open>W x + b\<close>, each but the
  last followed by the rectifier \<open>max(0, x)\<close>. The normalisation the code adds is, for a
  row of scores, each score minus the logarithm of the sum of the exponentials of all
  of them.
\<close>

definition affine :: "real list list \<Rightarrow> real list \<Rightarrow> real list \<Rightarrow> real list" where
  "affine W b x =
     map (\<lambda>j. (\<Sum>k\<leftarrow>[0..<length x]. W ! j ! k * x ! k) + b ! j) [0..<length b]"

definition rectifier :: "real list \<Rightarrow> real list" where
  "rectifier x = map (\<lambda>v. if 0 < v then v else 0) x"

definition layered_scores :: "linear list \<Rightarrow> real list \<Rightarrow> real list" where
  "layered_scores layers x =
     affine (weight (last layers)) (bias (last layers))
       (fold (\<lambda>l h. rectifier (affine (weight l) (bias l) h)) (butlast layers) x)"

definition log_probabilities :: "real list \<Rightarrow> real list" where
  "log_probabilities scores = map (\<lambda>v. v - ln (\<Sum>u\<leftarrow>scores. exp u)) scores"

section \<open>The accuracy the specification describes\<close>




section \<open>The update rules the specification and the framework describe\<close>

text \<open>
  The specification's rule for one entry \<open>w\<close> with gradient \<open>d\<close>. Adam's step for one
  entry at step \<open>t\<close>, from the running means \<open>m\<close> of the gradient and \<open>v\<close> of its square
  after this step: the means are divided by \<open>1 - 0.9\<^sup>t\<close> and \<open>1 - 0.999\<^sup>t\<close>, and the entry
  moves by the learning rate times the first over the root of the second plus
  \<open>10\<^sup>-\<^sup>8\<close>.
\<close>

definition descent_rule :: "real \<Rightarrow> real \<Rightarrow> real \<Rightarrow> real" where
  "descent_rule lr w d = w - lr * d"

definition adam_step :: "real \<Rightarrow> nat \<Rightarrow> real \<Rightarrow> real \<Rightarrow> real" where
  "adam_step lr t m v =
     lr * (m / (1 - (9 / 10) ^ t)) / (sqrt (v / (1 - (999 / 1000) ^ t)) + 1 / 10 ^ 8)"

section \<open>The state machine the specification describes\<close>

text \<open>
  In the specification's words: an epoch is its training batches, each as zero
  gradients, forward, loss, backward, update, and then the evaluation batches, each as
  forward and the accumulation of loss and accuracy, with the switch to evaluation mode
  before them and the report and the switch back after them. A trace respects the
  reset of the gradient buffers when every backward pass has a reset behind it that is
  later than the backward pass before.
\<close>

definition training_events :: "nat \<Rightarrow> event list" where
  "training_events n = concat (replicate n [ZeroGrad, Forward, Loss, Backward, Step])"

definition evaluation_events :: "nat \<Rightarrow> event list" where
  "evaluation_events n = concat (replicate n [Forward, Loss, Accuracy])"

definition epoch_events :: "nat \<Rightarrow> nat \<Rightarrow> number list \<Rightarrow> event list" where
  "epoch_events n_train n_test line =
     training_events n_train @ [Eval] @ evaluation_events n_test @ [Print line, Train]"

fun zeroed_before_backward :: "bool \<Rightarrow> event list \<Rightarrow> bool" where
  "zeroed_before_backward z [] = True"
| "zeroed_before_backward z (ZeroGrad # es) = zeroed_before_backward True es"
| "zeroed_before_backward z (Backward # es) = (z \<and> zeroed_before_backward False es)"
| "zeroed_before_backward z (e # es) = zeroed_before_backward z es"

text \<open>
  What the machine does to the training state, which is the parameters, the gradient
  buffers, the optimizer's state and the number of masks drawn. A training batch sets
  the buffers that exist to zero, adds the gradient of the batch to them, and lets the
  optimizer update the parameters from the buffers. The evaluation phase changes
  nothing. After an epoch with an evaluation phase the model is in training mode.
\<close>

type_synonym ('p, 'o) training_state = "'p \<times> 'p option \<times> 'o \<times> nat"

definition training_state :: "('p, 'o) session \<Rightarrow> ('p, 'o) training_state" where
  "training_state st = (params st, grad st, opt st, draws st)"

definition train_step ::
  "('p, 'o, 'x) trainer \<Rightarrow> bool \<Rightarrow> ('p, 'o) training_state \<Rightarrow> 'x \<times> int list \<Rightarrow>
   ('p, 'o) training_state" where
  "train_step S mode s batch =
     (case s of (p, buffers, state, drawn) \<Rightarrow>
        (let zeroed = map_option (pmap S (\<lambda>_. 0)) buffers;
             g = autograd S mode drawn p batch;
             total = (case zeroed of None \<Rightarrow> g | Some z \<Rightarrow> pmap2 S (+) z g);
             updated = optimizer S p total state
         in (fst updated, Some total, snd updated,
             drawn + (if mode then consumed S else 0))))"

fun evaluated_epochs ::
  "('p, 'o, 'x) trainer \<Rightarrow> (nat \<Rightarrow> ('x \<times> int list) list) \<Rightarrow> bool \<Rightarrow>
   ('p, 'o) training_state \<Rightarrow> nat list \<Rightarrow> ('p, 'o) training_state" where
  "evaluated_epochs S trainloader mode s [] = s"
| "evaluated_epochs S trainloader mode s (e # es) =
     evaluated_epochs S trainloader True (foldl (train_step S mode) s (trainloader e)) es"

definition flattened :: "tensor \<times> int list \<Rightarrow> matrix \<times> int list" where
  "flattened b = (projr (view_flat (fst b)), snd b)"

definition plain_epochs ::
  "('p, 'o, matrix) trainer \<Rightarrow> (nat \<Rightarrow> (tensor \<times> int list) list) \<Rightarrow> bool \<Rightarrow>
   ('p, 'o) training_state \<Rightarrow> nat list \<Rightarrow> ('p, 'o) training_state" where
  "plain_epochs S trainloader mode s es =
     foldl (\<lambda>s e. foldl (train_step S mode) s (map flattened (trainloader e))) s es"

section \<open>Example inputs\<close>

text \<open>
  Images as the loader delivers them (batch, channel, height, width), contiguous: one
  blank image, one image of ones, a batch of no image. The blank image with its last two
  dimensions transposed, which leaves the elements where they are and swaps the
  strides. A batch of two rows of three numbers.
\<close>

definition blank_image :: tensor where
  "blank_image = \<lparr>shape = [1, 1, 28, 28], stride = [784, 784, 28, 1], data = replicate 784 0\<rparr>"

definition unit_image :: tensor where
  "unit_image = \<lparr>shape = [1, 1, 28, 28], stride = [784, 784, 28, 1], data = replicate 784 1\<rparr>"

definition empty_batch :: tensor where
  "empty_batch = \<lparr>shape = [0, 1, 28, 28], stride = [784, 784, 28, 1], data = []\<rparr>"

definition transposed_image :: tensor where
  "transposed_image =
     \<lparr>shape = [1, 1, 28, 28], stride = [784, 784, 1, 28], data = replicate 784 0\<rparr>"

definition narrow_batch :: tensor where
  "narrow_batch = \<lparr>shape = [2, 3], stride = [3, 1], data = [1, 2, 3, 4, 5, 6]\<rparr>"

text \<open>Two mask generators, one that keeps and one that drops every activation.\<close>

definition keep_all :: "nat \<Rightarrow> mask" where
  "keep_all k i j = True"

definition drop_all :: "nat \<Rightarrow> mask" where
  "drop_all k i j = False"

text \<open>
  Layers with one value in every weight and one in every bias entry. A classifier whose
  weights are zero and whose last bias is given: on any image its scores are that bias.
  The sequential model of the same kind.
\<close>

definition uniform_linear :: "nat \<Rightarrow> nat \<Rightarrow> real \<Rightarrow> real \<Rightarrow> linear" where
  "uniform_linear i out w b =
     \<lparr>in_features = i, out_features = out,
      weight = replicate out (replicate i w), bias = replicate out b\<rparr>"

definition flat_classifier :: "real \<Rightarrow> real list \<Rightarrow> classifier" where
  "flat_classifier w b =
     \<lparr>fc1 = uniform_linear 784 256 w w, fc2 = uniform_linear 256 128 w w,
      fc3 = uniform_linear 128 64 w w, fc4 = (uniform_linear 64 10 w w)\<lparr>bias := b\<rparr>\<rparr>"

definition biased_classifier :: "real list \<Rightarrow> classifier" where
  "biased_classifier b = flat_classifier 0 b"

definition biased_sequential :: "real list \<Rightarrow> module list" where
  "biased_sequential b =
     Sequential (zero_linear 784 128) (zero_linear 128 64) ((zero_linear 64 10)\<lparr>bias := b\<rparr>)"

definition zero_sequential :: "module list" where
  "zero_sequential = Sequential (zero_linear 784 128) (zero_linear 128 64) (zero_linear 64 10)"

text \<open>
  The gradient of the loss of the zero networks on one blank image of class 0: the
  softmax is uniform, so the last bias gets \<open>0.1 - 1\<close> in class 0 and \<open>0.1\<close> in the
  other classes, and every other parameter gets 0. Gradient functions that return it,
  or zeros of the parameters' shapes, whatever the batch.
\<close>

definition class0_gradient :: "real list" where
  "class0_gradient = [- 0.9, 0.1, 0.1, 0.1, 0.1, 0.1, 0.1, 0.1, 0.1, 0.1]"

definition last_bias_gradient :: classifier where
  "last_bias_gradient = biased_classifier class0_gradient"

definition last_bias_gradient_sequential :: "module list" where
  "last_bias_gradient_sequential = biased_sequential class0_gradient"

definition steady_gradient :: "bool \<Rightarrow> nat \<Rightarrow> classifier \<Rightarrow> tensor \<times> int list \<Rightarrow> classifier" where
  "steady_gradient mode pos c batch = last_bias_gradient"

definition steady_gradient_sequential ::
  "bool \<Rightarrow> nat \<Rightarrow> module list \<Rightarrow> matrix \<times> int list \<Rightarrow> module list" where
  "steady_gradient_sequential mode pos ms batch = last_bias_gradient_sequential"

definition zero_gradient :: "bool \<Rightarrow> nat \<Rightarrow> classifier \<Rightarrow> tensor \<times> int list \<Rightarrow> classifier" where
  "zero_gradient mode pos c batch = classifier_map (\<lambda>_. 0) c"

text \<open>
  A classifier in which the rectifier, the affine layers and dropout all show on an
  image of ones: the first layer gives \<open>-1\<close> everywhere, the second and the third 1, and
  the last layer the score 1 to class 0 and 0 to the others.
\<close>

definition first_class_linear :: linear where
  "first_class_linear =
     \<lparr>in_features = 64, out_features = 10,
      weight = replicate 64 (1 / 64) # replicate 9 (replicate 64 0), bias = replicate 10 0\<rparr>"

definition example_classifier :: classifier where
  "example_classifier =
     \<lparr>fc1 = uniform_linear 784 256 (- 1 / 784) 0, fc2 = uniform_linear 256 128 1 1,
      fc3 = uniform_linear 128 64 (1 / 128) 0, fc4 = first_class_linear\<rparr>"

text \<open>
  A session of the classifier in which only the last bias has moved: the parameters,
  the gradient buffers and the optimizer's running means are zero outside it. A batch
  of one blank image with a label among the ten classes.
\<close>

definition is_biased :: "classifier \<Rightarrow> bool" where
  "is_biased c = (length (bias (fc4 c)) = 10 \<and> c = biased_classifier (bias (fc4 c)))"

definition bias_only :: "(classifier, classifier adam_state option) session \<Rightarrow> bool" where
  "bias_only st =
     (is_biased (params st) \<and>
      (case grad st of None \<Rightarrow> True | Some g \<Rightarrow> is_biased g) \<and>
      (case opt st of None \<Rightarrow> True
       | Some a \<Rightarrow> is_biased (exp_avg a) \<and> is_biased (exp_avg_sq a)))"

definition quiet_batch :: "tensor \<times> int list \<Rightarrow> bool" where
  "quiet_batch b =
     (fst b = blank_image \<and> length (snd b) = 1 \<and> 0 \<le> hd (snd b) \<and> hd (snd b) < 10)"

section \<open>Normalisation of the log-softmax\<close>

lemma sum_list_divide_const:
  "sum_list (map (\<lambda>v. f v / (c::real)) xs) = sum_list (map f xs) / c"
  by (induction xs) (simp_all add: add_divide_distrib)

lemma sum_list_exp_nonneg:
  "0 \<le> sum_list (map (\<lambda>v::real. exp (g v :: real)) xs)"
  by (induction xs) simp_all

lemma sum_list_exp_pos:
  "xs \<noteq> [] \<Longrightarrow> 0 < sum_list (map (\<lambda>v::real. exp (g v :: real)) xs)"
proof (cases xs)
  case Nil
  then show "xs \<noteq> [] \<Longrightarrow> ?thesis" by simp
next
  case (Cons a ys)
  have "0 < exp (g a) + sum_list (map (\<lambda>v. exp (g v)) ys)"
    by (rule add_pos_nonneg) (simp_all add: sum_list_exp_nonneg)
  then show ?thesis using Cons by simp
qed

lemma log_softmax_row_normalised:
  assumes "xs \<noteq> []"
  shows "sum_list (map exp (log_softmax_row xs)) = 1"
proof -
  define m where "m = row_max xs"
  define S where "S = sum_list (map (\<lambda>v. exp (v - m)) xs)"
  have S: "0 < S" unfolding S_def using assms by (rule sum_list_exp_pos)
  have "sum_list (map exp (log_softmax_row xs))
        = sum_list (map (\<lambda>v. exp (v - m - ln S)) xs)"
    using assms by (simp add: log_softmax_row_def m_def S_def Let_def comp_def)
  also have "\<dots> = sum_list (map (\<lambda>v. exp (v - m) / S) xs)"
    using S by (simp add: exp_diff)
  also have "\<dots> = S / S"
    by (simp add: sum_list_divide_const S_def)
  also have "\<dots> = 1" using S by simp
  finally show ?thesis .
qed

lemma row_max_Max: "r \<noteq> [] \<Longrightarrow> row_max r = Max (set r)"
  by (cases r) (simp_all add: row_max_def Max.set_eq_fold[symmetric])

lemma log_softmax_row_Max:
  "r \<noteq> [] \<Longrightarrow>
   log_softmax_row r = map (\<lambda>v. v - Max (set r) - ln (\<Sum>u\<leftarrow>r. exp (u - Max (set r)))) r"
  by (simp add: log_softmax_row_def Let_def row_max_Max)

lemma log_softmax_row_plain:
  assumes "r \<noteq> []"
  shows "log_softmax_row r = map (\<lambda>v. v - ln (\<Sum>u\<leftarrow>r. exp u)) r"
proof -
  define m where "m = row_max r"
  have pos: "0 < (\<Sum>u\<leftarrow>r. exp u)"
    using sum_list_exp_pos[OF assms, of "\<lambda>u. u"] by simp
  have "(\<Sum>u\<leftarrow>r. exp (u - m)) = (\<Sum>u\<leftarrow>r. exp u) / exp m"
    by (simp add: exp_diff sum_list_divide_const)
  then have "ln (\<Sum>u\<leftarrow>r. exp (u - m)) = ln (\<Sum>u\<leftarrow>r. exp u) - m"
    using pos by (simp add: ln_div)
  then show ?thesis
    using assms by (simp add: log_softmax_row_def Let_def m_def)
qed

lemma log_softmax_row_replicate:
  assumes "0 < n"
  shows "log_softmax_row (replicate n c) = replicate n (- ln (real n))"
proof -
  define m where "m = row_max (replicate n c)"
  have "sum_list (map (\<lambda>v. exp (v - m)) (replicate n c)) = real n * exp (c - m)"
    by (simp add: sum_list_replicate)
  moreover have "ln (real n * exp (c - m)) = ln (real n) + (c - m)"
    using assms by (simp add: ln_mult)
  ultimately show ?thesis
    using assms by (simp add: log_softmax_row_def Let_def m_def)
qed

section \<open>Flattening\<close>

lemma max_one_positive: "0 \<notin> set ns \<Longrightarrow> map (max (Suc 0)) ns = ns"
  by (induction ns) (auto simp: max_def)

lemma contiguous_head:
  assumes "0 \<notin> set ns"
    and "filter (\<lambda>(n, s). n \<noteq> 1) (zip ns (contiguous_strides ns)) = (n', s') # ds"
  shows "n' * s' = prod_list ns"
  using assms
proof (induction ns)
  case Nil
  then show ?case by simp
next
  case (Cons n ns)
  have same: "map (max (Suc 0)) ns = ns"
    using Cons.prems(1) max_one_positive[of ns] by simp
  show ?case
  proof (cases "n = 1")
    case True
    then show ?thesis using Cons by simp
  next
    case False
    then show ?thesis using Cons.prems(2) by (simp add: same)
  qed
qed

lemma mergeable_contiguous:
  assumes "0 \<notin> set ns"
  shows "mergeable (filter (\<lambda>(n, s). n \<noteq> 1) (zip ns (contiguous_strides ns)))"
  using assms
proof (induction ns)
  case Nil
  then show ?case by simp
next
  case (Cons n ns)
  have same: "map (max (Suc 0)) ns = ns"
    using Cons.prems max_one_positive[of ns] by simp
  let ?rest = "filter (\<lambda>(n, s). n \<noteq> 1) (zip ns (contiguous_strides ns))"
  have IH: "mergeable ?rest" using Cons by simp
  show ?case
  proof (cases "n = 1")
    case True
    then show ?thesis using IH by simp
  next
    case False
    show ?thesis
    proof (cases ?rest)
      case Nil
      then show ?thesis using False by simp
    next
      case (Cons d ds)
      obtain n' s' where d: "d = (n', s')" by (cases d)
      have "n' * s' = prod_list ns"
        using contiguous_head[of ns n' s' ds] Cons.prems Cons d
        by simp
      then show ?thesis using False IH Cons d by (simp add: same)
    qed
  qed
qed

lemma contiguous_flattenable:
  assumes "contiguous x"
  shows "flattenable x"
proof (cases "prod_list (shape x) = 0")
  case True
  then show ?thesis by (simp add: flattenable_def)
next
  case False
  then have nz: "0 \<notin> set (shape x)" by (simp add: prod_list_zero_iff)
  show ?thesis
  proof (cases "shape x")
    case Nil
    then show ?thesis by (simp add: flattenable_def)
  next
    case (Cons b rest)
    have "0 \<notin> set rest" using nz Cons by simp
    then have "mergeable (filter (\<lambda>(n, s). n \<noteq> 1) (zip rest (contiguous_strides rest)))"
      by (rule mergeable_contiguous)
    moreover have "tl (stride x) = contiguous_strides rest"
      using assms Cons by (simp add: contiguous_def)
    ultimately show ?thesis using Cons by (simp add: flattenable_def)
  qed
qed

lemma view_flat_rows:
  assumes "shape x = b # rest" "0 < b" "flattenable x"
  shows "view_flat x =
         Inr \<lparr>cols = prod_list rest,
              rows = map (\<lambda>i. take (prod_list rest) (drop (i * prod_list rest) (data x))) [0..<b]\<rparr>"
  using assms by (simp add: view_flat_def Let_def)

lemma view_flat_refuses:
  assumes "shape x = b # rest" "b = 0 \<or> \<not> flattenable x"
  shows "view_flat x = Inl ViewError"
  using assms by (auto simp: view_flat_def Let_def)

lemma view_flat_Inr:
  assumes "view_flat x = Inr images"
  obtains b rest where "shape x = b # rest" "0 < b" "flattenable x"
    "images = \<lparr>cols = prod_list rest,
               rows = map (\<lambda>i. take (prod_list rest) (drop (i * prod_list rest) (data x))) [0..<b]\<rparr>"
  using assms by (auto simp: view_flat_def Let_def split: list.splits if_splits)

lemma view_flat_shape:
  assumes "view_flat x = Inr images" "shape x = b # rest"
  shows "cols images = prod_list rest" "length (rows images) = b" "0 < b"
  using assms by (auto elim!: view_flat_Inr)

lemma view_flat_wf:
  assumes "wf_tensor x" "view_flat x = Inr images"
  shows "wf_matrix images"
proof -
  from assms(2) obtain b rest where s: "shape x = b # rest" "0 < b" and
    im: "images = \<lparr>cols = prod_list rest,
               rows = map (\<lambda>i. take (prod_list rest) (drop (i * prod_list rest) (data x))) [0..<b]\<rparr>"
    by (rule view_flat_Inr)
  have len: "length (data x) = b * prod_list rest"
    using assms(1) s(1) by (simp add: wf_tensor_def)
  have "prod_list rest \<le> length (data x) - i * prod_list rest" if "i < b" for i
  proof -
    have "Suc i * prod_list rest \<le> b * prod_list rest"
      using that by (intro mult_le_mono1) simp
    then show ?thesis using len by simp
  qed
  then show ?thesis by (simp add: im wf_matrix_def list_all_iff min_absorb2)
qed

section \<open>Shapes through the layers\<close>

lemma length_linear_row: "wf_linear l \<Longrightarrow> length (linear_row l x) = out_features l"
  by (simp add: linear_row_def wf_linear_def)

lemma Linear_forward_sized:
  assumes "sized i out l" "cols x = i"
  shows "Linear_forward l x = Inr \<lparr>cols = out, rows = map (linear_row l) (rows x)\<rparr>"
  using assms by (simp add: Linear_forward_def sized_def)

lemma Linear_forward_reject:
  assumes "sized i out l" "cols x \<noteq> i"
  shows "Linear_forward l x = Inl SizeMismatch"
  using assms by (simp add: Linear_forward_def sized_def)


lemma relu_fields [simp]:
  "cols (relu x) = cols x" "rows (relu x) = map (map (max 0)) (rows x)"
  by (simp_all add: relu_def)

lemma log_softmax_fields [simp]:
  "cols (log_softmax x) = cols x" "rows (log_softmax x) = map log_softmax_row (rows x)"
  by (simp_all add: log_softmax_def)

lemma length_log_softmax_row [simp]: "length (log_softmax_row xs) = length xs"
  by (simp add: log_softmax_row_def Let_def)

lemma Classifier_forward_logits:
  "Classifier_forward c x =
     (case Classifier_logits c x of Inl e \<Rightarrow> Inl e | Inr z \<Rightarrow> Inr (log_softmax z))"
  by (simp add: Classifier_forward_def Classifier_logits_def split: sum.splits)

lemma Classifier_logits_rows:
  assumes c: "Classifier_init c" and v: "view_flat x = Inr images" and w: "cols images = 784"
  shows "Classifier_logits c x =
         Inr \<lparr>cols = 10,
              rows = map (\<lambda>r. linear_row (fc4 c) (map (max 0)
                            (linear_row (fc3 c) (map (max 0)
                              (linear_row (fc2 c) (map (max 0)
                                (linear_row (fc1 c) r)))))))
                       (rows images)\<rparr>"
proof -
  have s: "sized 784 256 (fc1 c)" "sized 256 128 (fc2 c)" "sized 128 64 (fc3 c)"
      "sized 64 10 (fc4 c)"
    using c by (simp_all add: Classifier_init_def)
  note f = Linear_forward_sized[OF s(1)] Linear_forward_sized[OF s(2)]
    Linear_forward_sized[OF s(3)] Linear_forward_sized[OF s(4)]
  show ?thesis
    by (simp add: Classifier_logits_def v w f comp_def)
qed

lemma Classifier_logits_rejects:
  assumes c: "Classifier_init c" and v: "view_flat x = Inr images" and w: "cols images \<noteq> 784"
  shows "Classifier_logits c x = Inl SizeMismatch"
proof -
  have "sized 784 256 (fc1 c)" using c by (simp add: Classifier_init_def)
  from Linear_forward_reject[OF this w] show ?thesis
    by (simp add: Classifier_logits_def v)
qed

lemma Classifier_logits_Inr:
  assumes "Classifier_init c" "Classifier_logits c x = Inr z"
  obtains images where "view_flat x = Inr images" "cols images = 784"
    "cols z = 10" "length (rows z) = length (rows images)"
    "list_all (\<lambda>r. length r = 10) (rows z)"
proof -
  from assms(2) obtain images where v: "view_flat x = Inr images"
    by (auto simp: Classifier_logits_def split: sum.splits)
  have w: "cols images = 784"
    using Classifier_logits_rejects[OF assms(1) v] assms(2) by auto
  have "wf_linear (fc4 c)" "out_features (fc4 c) = 10"
    using assms(1) by (simp_all add: Classifier_init_def sized_def)
  then have "length (linear_row (fc4 c) r) = 10" for r
    by (simp add: length_linear_row)
  then have "cols z = 10 \<and> length (rows z) = length (rows images) \<and>
             list_all (\<lambda>r. length r = 10) (rows z)"
    using Classifier_logits_rows[OF assms(1) v w] assms(2) by (auto simp: list_all_iff)
  then show ?thesis using that v w by blast
qed

section \<open>Networks with one value in every entry\<close>

lemma dot_zero: "dot (replicate i 0) v = 0"
proof (induction i arbitrary: v)
  case 0
  then show ?case by (simp add: dot_def)
next
  case (Suc i)
  then show ?case by (cases v) (simp_all add: dot_def)
qed

lemma dot_replicate: "dot (replicate n a) (replicate n b) = real n * a * b"
  by (simp add: dot_def zip_replicate sum_list_replicate)

lemma linear_row_zero: "linear_row (zero_linear i out) v = replicate out 0"
  by (simp add: linear_row_def zero_linear_def dot_zero)

lemma linear_row_uniform:
  "linear_row (uniform_linear i out w b) (replicate i v) = replicate out (real i * w * v + b)"
  by (simp add: linear_row_def uniform_linear_def dot_replicate)

lemma linear_row_bias:
  assumes "length b = out"
  shows "linear_row ((uniform_linear i out 0 0)\<lparr>bias := b\<rparr>) v = b"
  using assms
  by (intro nth_equalityI) (simp_all add: linear_row_def uniform_linear_def dot_zero)

lemma linear_row_first_class:
  "linear_row first_class_linear (replicate 64 v) = v # replicate 9 0"
proof -
  have "replicate 10 (0::real) = 0 # replicate 9 0" by (simp add: numeral_eq_Suc)
  then show ?thesis
    by (simp add: linear_row_def first_class_linear_def dot_replicate dot_zero)
qed

lemma zero_is_uniform: "zero_linear i out = uniform_linear i out 0 0"
  by (simp add: zero_linear_def uniform_linear_def)

lemma sized_uniform_linear: "sized i out (uniform_linear i out w b)"
  by (simp add: sized_def uniform_linear_def wf_linear_def list_all_iff)

lemma sized_zero_linear: "sized i out (zero_linear i out)"
  by (simp add: zero_is_uniform sized_uniform_linear)

lemma sized_bias:
  "length b = out \<Longrightarrow> sized i out ((uniform_linear i out w w')\<lparr>bias := b\<rparr>)"
  by (simp add: sized_def uniform_linear_def wf_linear_def list_all_iff)

lemma sized_first_class: "sized 64 10 first_class_linear"
  by (simp add: sized_def first_class_linear_def wf_linear_def list_all_iff)

lemma Classifier_init_zero: "Classifier_init zero_classifier"
  by (simp add: Classifier_init_def zero_classifier_def sized_zero_linear)


lemma Classifier_init_example: "Classifier_init example_classifier"
  by (simp add: Classifier_init_def example_classifier_def sized_uniform_linear
        sized_first_class)

lemma Sequential_init_zero:
  "Sequential_init (zero_linear 784 128) (zero_linear 128 64) (zero_linear 64 10)"
  by (simp add: Sequential_init_def sized_zero_linear)

lemma zero_is_biased: "zero_classifier = biased_classifier (replicate 10 0)"
  by (simp add: zero_classifier_def biased_classifier_def flat_classifier_def zero_is_uniform
        uniform_linear_def)

section \<open>The example images\<close>

lemma blank_image_ok:
  "wf_tensor blank_image" "shape blank_image = 1 # [1, 28, 28]"
  "prod_list [1, 28, 28] = (784::nat)" "contiguous blank_image" "flattenable blank_image"
  by (simp_all add: blank_image_def wf_tensor_def contiguous_def flattenable_def)

lemma unit_image_ok:
  "wf_tensor unit_image" "shape unit_image = 1 # [1, 28, 28]"
  "contiguous unit_image" "flattenable unit_image"
  by (simp_all add: unit_image_def wf_tensor_def contiguous_def flattenable_def)

lemma view_flat_blank: "view_flat blank_image = Inr \<lparr>cols = 784, rows = [replicate 784 0]\<rparr>"
  using view_flat_rows[OF blank_image_ok(2) _ blank_image_ok(5)]
  by (simp add: blank_image_def)

lemma view_flat_unit: "view_flat unit_image = Inr \<lparr>cols = 784, rows = [replicate 784 1]\<rparr>"
  using view_flat_rows[OF unit_image_ok(2) _ unit_image_ok(4)]
  by (simp add: unit_image_def)

section \<open>Dropout calls\<close>

lemma Dropout_forward_fields [simp]:
  "cols (Dropout_forward p t m x) = cols x"
  "length (rows (Dropout_forward p t m x)) = length (rows x)"
  by (simp_all add: Dropout_forward_def)


lemma Dropout_forward_eval: "Dropout_forward p False m x = x"
  by (simp add: Dropout_forward_def)


lemma Dropout_forward_zero:
  "Dropout_forward p t m \<lparr>cols = c, rows = [replicate n 0]\<rparr> = \<lparr>cols = c, rows = [replicate n 0]\<rparr>"
proof (cases t)
  case True
  have "map (\<lambda>(j, v). dropout_elem p (m i j) v) (enumerate 0 (replicate n 0)) = replicate n 0"
    for i
    by (rule nth_equalityI) (simp_all add: nth_enumerate_eq dropout_elem_def)
  then show ?thesis using True by (simp add: Dropout_forward_def)
next
  case False
  then show ?thesis by (simp add: Dropout_forward_def)
qed

lemma Classifier_dropout_forward_eval:
  "Classifier_dropout_forward False m1 m2 m3 c x = Classifier_forward c x"
  by (simp add: Classifier_dropout_forward_def Classifier_forward_def Dropout_forward_eval
        split: sum.splits)



section \<open>Forward passes of the example networks\<close>

lemma max_zero_replicate: "map (max 0) (replicate n (0::real)) = replicate n 0"
  by simp

lemma Classifier_dropout_forward_biased:
  assumes "length b = 10"
  shows "Classifier_dropout_forward t m1 m2 m3 (biased_classifier b) blank_image
           = Inr \<lparr>cols = 10, rows = [log_softmax_row b]\<rparr>"
proof -
  note f = Linear_forward_sized[OF sized_uniform_linear]
    Linear_forward_sized[OF sized_bias[OF assms]]
  show ?thesis
    by (simp add: Classifier_dropout_forward_def biased_classifier_def flat_classifier_def
          view_flat_blank f linear_row_uniform Dropout_forward_zero linear_row_bias[OF assms]
          log_softmax_def relu_def)
qed

lemma Classifier_forward_biased:
  assumes "length b = 10"
  shows "Classifier_forward (biased_classifier b) blank_image
           = Inr \<lparr>cols = 10, rows = [log_softmax_row b]\<rparr>"
  using Classifier_dropout_forward_biased[OF assms, of False]
  by (simp add: Classifier_dropout_forward_eval)

lemma Classifier_forward_blank:
  "Classifier_forward zero_classifier blank_image
     = Inr \<lparr>cols = 10, rows = [replicate 10 (- ln 10)]\<rparr>"
  using Classifier_forward_biased[of "replicate 10 0"] log_softmax_row_replicate[of 10 0]
  by (simp add: zero_is_biased)

lemma Classifier_dropout_forward_blank:
  "Classifier_dropout_forward t m1 m2 m3 zero_classifier blank_image
     = Inr \<lparr>cols = 10, rows = [replicate 10 (- ln 10)]\<rparr>"
  using Classifier_dropout_forward_biased[of "replicate 10 0"] log_softmax_row_replicate[of 10 0]
  by (simp add: zero_is_biased)


lemma Classifier_forward_example:
  "Classifier_forward example_classifier unit_image
     = Inr \<lparr>cols = 10, rows = [log_softmax_row (1 # replicate 9 0)]\<rparr>"
proof -
  note f = Linear_forward_sized[OF sized_uniform_linear] Linear_forward_sized[OF sized_first_class]
  show ?thesis
    by (simp add: Classifier_forward_def example_classifier_def view_flat_unit f
          linear_row_uniform linear_row_first_class log_softmax_def)
qed

section \<open>The sampler of dropout\<close>








section \<open>Claims about dropout\<close>



section \<open>The sequential model\<close>

lemma Sequential_forward_rows:
  assumes "Sequential_init l0 l2 l4" and "cols x = 784"
  shows "Sequential_forward (Sequential l0 l2 l4) x =
         Inr \<lparr>cols = 10,
              rows = map (\<lambda>r. log_softmax_row (linear_row l4 (map (max 0)
                            (linear_row l2 (map (max 0) (linear_row l0 r))))))
                       (rows x)\<rparr>"
proof -
  have s: "sized 784 128 l0" "sized 128 64 l2" "sized 64 10 l4"
    using assms(1) by (simp_all add: Sequential_init_def)
  note f = Linear_forward_sized[OF s(1)] Linear_forward_sized[OF s(2)]
    Linear_forward_sized[OF s(3)]
  show ?thesis
    by (simp add: Sequential_def assms(2) f comp_def log_softmax_def)
qed

lemma Sequential_forward_rejects:
  assumes "Sequential_init l0 l2 l4" and "cols x \<noteq> 784"
  shows "Sequential_forward (Sequential l0 l2 l4) x = Inl SizeMismatch"
proof -
  have "sized 784 128 l0" using assms(1) by (simp add: Sequential_init_def)
  from Linear_forward_reject[OF this assms(2)] show ?thesis by (simp add: Sequential_def)
qed

lemma Sequential_forward_Inr:
  assumes "Sequential_init l0 l2 l4" and "Sequential_forward (Sequential l0 l2 l4) x = Inr out"
  shows "cols x = 784"
    and "out = \<lparr>cols = 10,
               rows = map (\<lambda>r. log_softmax_row (linear_row l4 (map (max 0)
                            (linear_row l2 (map (max 0) (linear_row l0 r))))))
                        (rows x)\<rparr>"
proof -
  show w: "cols x = 784"
    using Sequential_forward_rejects[OF assms(1), of x] assms(2) by auto
  show "out = \<lparr>cols = 10,
               rows = map (\<lambda>r. log_softmax_row (linear_row l4 (map (max 0)
                            (linear_row l2 (map (max 0) (linear_row l0 r))))))
                        (rows x)\<rparr>"
    using Sequential_forward_rows[OF assms(1) w] assms(2) by simp
qed

lemma Sequential_forward_normalised:
  assumes "Sequential_init l0 l2 l4" and "Sequential_forward (Sequential l0 l2 l4) x = Inr out"
  shows "cols out = 10" "length (rows out) = length (rows x)"
    "list_all (\<lambda>row. length row = 10 \<and> sum_list (map exp row) = 1) (rows out)"
proof -
  note out = Sequential_forward_Inr(2)[OF assms]
  show "cols out = 10" "length (rows out) = length (rows x)" by (simp_all add: out)
  have "wf_linear l4" "out_features l4 = 10"
    using assms(1) by (simp_all add: Sequential_init_def sized_def)
  then have len: "length (linear_row l4 v) = 10" for v
    by (simp add: length_linear_row)
  then have "linear_row l4 v \<noteq> []" for v
    by (metis length_0_conv zero_neq_numeral)
  then show "list_all (\<lambda>row. length row = 10 \<and> sum_list (map exp row) = 1) (rows out)"
    using len by (simp add: out list_all_iff log_softmax_row_normalised)
qed

lemma Sequential_forward_biased:
  assumes "length b = 10"
  shows "Sequential_forward (biased_sequential b) \<lparr>cols = 784, rows = [replicate 784 0]\<rparr>
           = Inr \<lparr>cols = 10, rows = [log_softmax_row b]\<rparr>"
proof -
  have i: "Sequential_init (zero_linear 784 128) (zero_linear 128 64)
             ((zero_linear 64 10)\<lparr>bias := b\<rparr>)"
    using assms sized_bias[of b 10 64 0 0]
    by (simp add: Sequential_init_def sized_uniform_linear zero_is_uniform)
  show ?thesis
    using Sequential_forward_rows[OF i, of "\<lparr>cols = 784, rows = [replicate 784 0]\<rparr>"]
      linear_row_bias[OF assms, of 64]
    by (simp add: biased_sequential_def linear_row_zero zero_is_uniform)
qed

lemma Sequential_forward_zero:
  "Sequential_forward zero_sequential \<lparr>cols = 784, rows = [replicate 784 0]\<rparr>
     = Inr \<lparr>cols = 10, rows = [replicate 10 (- ln 10)]\<rparr>"
  using Sequential_forward_rows[OF Sequential_init_zero,
      of "\<lparr>cols = 784, rows = [replicate 784 0]\<rparr>"] log_softmax_row_replicate[of 10 0]
  by (simp add: zero_sequential_def linear_row_zero)

lemma Sequential_init_example:
  "Sequential_init (uniform_linear 784 128 (- 1 / 784) 0) (uniform_linear 128 64 (1 / 128) 1)
     first_class_linear"
  by (simp add: Sequential_init_def sized_uniform_linear sized_first_class)

lemma Sequential_forward_example:
  "Sequential_forward
     (Sequential (uniform_linear 784 128 (- 1 / 784) 0) (uniform_linear 128 64 (1 / 128) 1)
        first_class_linear)
     \<lparr>cols = 784, rows = [replicate 784 1]\<rparr>
   = Inr \<lparr>cols = 10, rows = [log_softmax_row (1 # replicate 9 0)]\<rparr>"
  using Sequential_forward_rows[OF Sequential_init_example,
      of "\<lparr>cols = 784, rows = [replicate 784 1]\<rparr>"]
  by (simp add: linear_row_uniform linear_row_first_class)

section \<open>The affine layers and the rectifier\<close>

lemma dot_nth:
  assumes "length w = length x"
  shows "dot w x = (\<Sum>k\<leftarrow>[0..<length x]. w ! k * x ! k)"
proof -
  have "map2 (*) w x = map (\<lambda>k. w ! k * x ! k) [0..<length x]"
    using assms by (intro nth_equalityI) simp_all
  then show ?thesis by (simp add: dot_def)
qed

lemma linear_row_affine:
  assumes "wf_linear l" "length x = in_features l"
  shows "linear_row l x = affine (weight l) (bias l) x"
proof (rule nth_equalityI)
  show "length (linear_row l x) = length (affine (weight l) (bias l) x)"
    using assms(1) by (simp add: linear_row_def affine_def wf_linear_def)
next
  fix j assume "j < length (linear_row l x)"
  then have j: "j < length (weight l)" "j < length (bias l)"
    by (simp_all add: linear_row_def)
  then have "length (weight l ! j) = length x"
    using assms by (simp add: wf_linear_def list_all_length)
  then show "linear_row l x ! j = affine (weight l) (bias l) x ! j"
    using j by (simp add: linear_row_def affine_def dot_nth)
qed

lemma relu_rectifier: "map (max 0) x = rectifier x"
  by (simp add: rectifier_def max_def)

lemma length_affine [simp]: "length (affine W b x) = length b"
  by (simp add: affine_def)

lemma length_rectifier [simp]: "length (rectifier x) = length x"
  by (simp add: rectifier_def)

lemma four_layers:
  assumes "sized i a l1" "sized a b l2" "sized b c l3" "sized c d l4" "length x = i"
  shows "linear_row l4 (map (max 0) (linear_row l3 (map (max 0)
           (linear_row l2 (map (max 0) (linear_row l1 x))))))
         = layered_scores [l1, l2, l3, l4] x"
proof -
  have w: "wf_linear l1" "wf_linear l2" "wf_linear l3" "wf_linear l4"
    and n: "in_features l1 = i" "in_features l2 = a" "in_features l3 = b" "in_features l4 = c"
    using assms(1-4) by (simp_all add: sized_def)
  have o: "length (bias l1) = a" "length (bias l2) = b" "length (bias l3) = c"
    using assms(1-4) by (auto simp: sized_def wf_linear_def)
  have 1: "linear_row l1 x = affine (weight l1) (bias l1) x"
    using w(1) n(1) assms(5) by (intro linear_row_affine) simp_all
  have 2: "linear_row l2 (rectifier (affine (weight l1) (bias l1) x))
           = affine (weight l2) (bias l2) (rectifier (affine (weight l1) (bias l1) x))"
    using w(2) n(2) o(1) by (intro linear_row_affine) simp_all
  have 3: "linear_row l3 (rectifier (affine (weight l2) (bias l2)
             (rectifier (affine (weight l1) (bias l1) x))))
           = affine (weight l3) (bias l3) (rectifier (affine (weight l2) (bias l2)
             (rectifier (affine (weight l1) (bias l1) x))))"
    using w(3) n(3) o(2) by (intro linear_row_affine) simp_all
  have 4: "linear_row l4 (rectifier (affine (weight l3) (bias l3)
             (rectifier (affine (weight l2) (bias l2)
               (rectifier (affine (weight l1) (bias l1) x))))))
           = affine (weight l4) (bias l4) (rectifier (affine (weight l3) (bias l3)
             (rectifier (affine (weight l2) (bias l2)
               (rectifier (affine (weight l1) (bias l1) x))))))"
    using w(4) n(4) o(3) by (intro linear_row_affine) simp_all
  show ?thesis
    by (simp add: relu_rectifier 1 2 3 4 layered_scores_def)
qed

lemma three_layers:
  assumes "sized i a l1" "sized a b l2" "sized b c l3" "length x = i"
  shows "linear_row l3 (map (max 0) (linear_row l2 (map (max 0) (linear_row l1 x))))
         = layered_scores [l1, l2, l3] x"
proof -
  have w: "wf_linear l1" "wf_linear l2" "wf_linear l3"
    and n: "in_features l1 = i" "in_features l2 = a" "in_features l3 = b"
    using assms(1-3) by (simp_all add: sized_def)
  have o: "length (bias l1) = a" "length (bias l2) = b"
    using assms(1-3) by (auto simp: sized_def wf_linear_def)
  have 1: "linear_row l1 x = affine (weight l1) (bias l1) x"
    using w(1) n(1) assms(4) by (intro linear_row_affine) simp_all
  have 2: "linear_row l2 (rectifier (affine (weight l1) (bias l1) x))
           = affine (weight l2) (bias l2) (rectifier (affine (weight l1) (bias l1) x))"
    using w(2) n(2) o(1) by (intro linear_row_affine) simp_all
  have 3: "linear_row l3 (rectifier (affine (weight l2) (bias l2)
             (rectifier (affine (weight l1) (bias l1) x))))
           = affine (weight l3) (bias l3) (rectifier (affine (weight l2) (bias l2)
             (rectifier (affine (weight l1) (bias l1) x))))"
    using w(3) n(3) o(2) by (intro linear_row_affine) simp_all
  show ?thesis
    by (simp add: relu_rectifier 1 2 3 layered_scores_def)
qed

lemma log_softmax_row_log_probabilities:
  "r \<noteq> [] \<Longrightarrow> log_softmax_row r = log_probabilities r"
  by (simp add: log_softmax_row_plain log_probabilities_def)

section \<open>Claims about the forward pass\<close>

lemma Classifier_logits_zero:
  assumes "shape x = b # rest" "0 < b" "flattenable x" "prod_list rest = 784"
  shows "Classifier_logits zero_classifier x
           = Inr \<lparr>cols = 10, rows = replicate b (replicate 10 0)\<rparr>"
proof -
  note v = view_flat_rows[OF assms(1-3)]
  show ?thesis
    using Classifier_logits_rows[OF Classifier_init_zero v]
    by (simp add: assms(4) zero_classifier_def linear_row_zero map_replicate_const)
qed

lemma nll_loss_uniform:
  assumes "0 < n" "labels \<noteq> []" "list_all (\<lambda>t. 0 \<le> t \<and> t < int n) labels"
  shows "nll_loss \<lparr>cols = n, rows = replicate (length labels) (replicate n u)\<rparr> labels
           = Inr (Num (- u))"
proof -
  let ?rows = "replicate (length labels) (replicate n u)"
  have z: "zip ?rows labels = map (Pair (replicate n u)) labels"
    by (simp add: zip_replicate1)
  have rng: "\<And>t. t \<in> set labels \<Longrightarrow> 0 \<le> t \<and> t < int n"
    using assms(3) by (simp add: list_all_iff)
  have valid: "list_all (valid_target n) labels"
    using rng by (auto simp: list_all_iff valid_target_def)
  have "t \<noteq> ignore_index" if "t \<in> set labels" for t
    using rng[OF that] by (simp add: ignore_index_def)
  then have kept:
    "filter (\<lambda>(row, t). t \<noteq> ignore_index) (zip ?rows labels) = zip ?rows labels"
    by (auto simp: z intro!: filter_True)
  have "replicate n u ! nat t = u" if "t \<in> set labels" for t
    using rng[OF that] by (intro nth_replicate) linarith
  then have m: "map (\<lambda>(row, t). - (row ! nat t)) (zip ?rows labels) = map (\<lambda>t. - u) labels"
    by (simp add: z)
  have "mean (map (\<lambda>t. - u) labels) = Num (- u)"
    using assms(2) by (simp add: mean_def map_replicate_const sum_list_replicate)
  then show ?thesis
    using valid by (simp add: nll_loss_def kept m)
qed

text \<open>
  C5. Whenever the classifier returns, every row of its output is a vector of
  log-probabilities: the exponentials of the row's entries add up to exactly 1 over the
  reals. The reason is the normaliser: each row is the row of scores minus its maximum
  minus the logarithm of the sum of the exponentials of the scores so shifted.
\<close>

theorem log_softmax_rows_sum_to_one:
  assumes "Classifier_init c" and "Classifier_forward c x = Inr out"
    and "Sequential_init l0 l2 l4"
    and "Sequential_forward (Sequential l0 l2 l4) y = Inr out'"
  shows "list_all (\<lambda>row. sum_list (map exp row) = 1) (rows out) \<and>
         (\<exists>z. Classifier_logits c x = Inr z \<and>
              out = z\<lparr>rows := map (\<lambda>r. map (\<lambda>v. v - Max (set r)
                                       - ln (\<Sum>u\<leftarrow>r. exp (u - Max (set r)))) r) (rows z)\<rparr>) \<and>
         list_all (\<lambda>row. sum_list (map exp row) = 1) (rows out')"
proof -
  obtain z where z: "Classifier_logits c x = Inr z" "out = log_softmax z"
    using assms(2) by (auto simp: Classifier_forward_logits split: sum.splits)
  have "list_all (\<lambda>r. length r = 10) (rows z)"
    using assms(1) z(1) by (rule Classifier_logits_Inr)
  then have w: "\<And>r. r \<in> set (rows z) \<Longrightarrow> r \<noteq> []"
    by (auto simp: list_all_iff)
  have "list_all (\<lambda>row. sum_list (map exp row) = 1) (rows out)"
    using w by (simp add: z(2) list_all_iff log_softmax_row_normalised)
  moreover have "out = z\<lparr>rows := map (\<lambda>r. map (\<lambda>v. v - Max (set r)
                                       - ln (\<Sum>u\<leftarrow>r. exp (u - Max (set r)))) r) (rows z)\<rparr>"
    using w by (simp add: z(2) log_softmax_def log_softmax_row_Max)
  moreover have "list_all (\<lambda>row. sum_list (map exp row) = 1) (rows out')"
    using Sequential_forward_normalised(3)[OF assms(3,4)] by (simp add: list_all_iff)
  ultimately show ?thesis using z(1) by blast
qed

theorem log_softmax_rows_sum_to_one_witness:
  "Classifier_forward example_classifier unit_image
     = Inr \<lparr>cols = 10, rows = [log_softmax_row (1 # replicate 9 0)]\<rparr> \<and>
   Sequential_forward zero_sequential \<lparr>cols = 784, rows = [replicate 784 0]\<rparr>
     = Inr \<lparr>cols = 10, rows = [replicate 10 (- ln 10)]\<rparr> \<and>
   sum_list (map exp (log_softmax_row (1 # replicate 9 0))) = 1 \<and>
   sum_list (map exp (replicate 10 (- ln (10::real)))) = 1"
proof -
  have s: "Sequential_forward
             (Sequential (zero_linear 784 128) (zero_linear 128 64) (zero_linear 64 10))
             \<lparr>cols = 784, rows = [replicate 784 0]\<rparr>
           = Inr \<lparr>cols = 10, rows = [replicate 10 (- ln 10)]\<rparr>"
    using Sequential_forward_zero by (simp add: zero_sequential_def)
  note t = log_softmax_rows_sum_to_one[OF Classifier_init_example Classifier_forward_example
      Sequential_init_zero s]
  have "sum_list (map exp (log_softmax_row (1 # replicate 9 0))) = 1"
    using t[THEN conjunct1] by simp
  moreover have "sum_list (map exp (replicate 10 (- ln (10::real)))) = 1"
    using t[THEN conjunct2, THEN conjunct2] by simp
  ultimately show ?thesis
    using Classifier_forward_example Sequential_forward_zero by blast
qed

text \<open>
  C6. When every row of scores is constant (all \<open>n\<close> classes get the same score), the
  log-softmax of every row is uniform, \<open>- ln n\<close> in each class, and the loss of the batch
  is the real number \<open>ln n\<close> whatever valid labels it is computed against. In
  particular the classifier with zero weights and zero biases gives every input it
  accepts the score 0 in each of the 10 classes, returns \<open>- ln 10\<close> in each class, and its
  loss is \<open>ln 10\<close>.
\<close>

theorem equal_scores_uniform_loss:
  assumes "0 < n" and "labels \<noteq> []"
    and "list_all (\<lambda>t. 0 \<le> t \<and> t < int n) labels"
    and "cols scores = n" and "length (rows scores) = length labels"
    and "list_all (\<lambda>row. \<exists>s. row = replicate n s) (rows scores)"
    and "shape x = length targets # rest" and "flattenable x" and "prod_list rest = 784"
    and "targets \<noteq> []" and "list_all (\<lambda>t. 0 \<le> t \<and> t < 10) targets"
  shows "log_softmax scores
           = \<lparr>cols = n, rows = replicate (length labels) (replicate n (- ln (real n)))\<rparr> \<and>
         nll_loss (log_softmax scores) labels = Inr (Num (ln (real n))) \<and>
         Classifier_logits zero_classifier x
           = Inr \<lparr>cols = 10, rows = replicate (length targets) (replicate 10 0)\<rparr> \<and>
         Classifier_forward zero_classifier x
           = Inr \<lparr>cols = 10, rows = replicate (length targets) (replicate 10 (- ln 10))\<rparr> \<and>
         nll_loss \<lparr>cols = 10, rows = replicate (length targets) (replicate 10 (- ln 10))\<rparr>
           targets = Inr (Num (ln 10))"
proof -
  have "\<And>row. row \<in> set (rows scores) \<Longrightarrow> log_softmax_row row = replicate n (- ln (real n))"
    using assms(1,6) by (auto simp: list_all_iff log_softmax_row_replicate)
  then have "map log_softmax_row (rows scores)
               = map (\<lambda>row. replicate n (- ln (real n))) (rows scores)"
    by simp
  then have u: "log_softmax scores
      = \<lparr>cols = n, rows = replicate (length labels) (replicate n (- ln (real n)))\<rparr>"
    by (simp add: log_softmax_def map_replicate_const assms(4,5))
  have l: "nll_loss (log_softmax scores) labels = Inr (Num (ln (real n)))"
    using nll_loss_uniform[OF assms(1-3), of "- ln (real n)"] by (simp add: u)
  have b: "0 < length targets" using assms(10) by simp
  have z: "Classifier_logits zero_classifier x
             = Inr \<lparr>cols = 10, rows = replicate (length targets) (replicate 10 0)\<rparr>"
    by (rule Classifier_logits_zero[OF assms(7) b assms(8,9)])
  have f: "Classifier_forward zero_classifier x
             = Inr \<lparr>cols = 10, rows = replicate (length targets) (replicate 10 (- ln 10))\<rparr>"
    using log_softmax_row_replicate[of 10 0]
    by (simp add: Classifier_forward_logits z log_softmax_def)
  have "list_all (\<lambda>t. 0 \<le> t \<and> t < int 10) targets" using assms(11) by simp
  from nll_loss_uniform[OF _ assms(10) this, of "- ln 10"]
  have "nll_loss \<lparr>cols = 10, rows = replicate (length targets) (replicate 10 (- ln 10))\<rparr>
          targets = Inr (Num (ln 10))"
    by simp
  then show ?thesis using u l z f by blast
qed

theorem equal_scores_uniform_loss_witness:
  "log_softmax \<lparr>cols = 10, rows = [replicate 10 0]\<rparr>
     = \<lparr>cols = 10, rows = [replicate 10 (- ln 10)]\<rparr> \<and>
   nll_loss (log_softmax \<lparr>cols = 10, rows = [replicate 10 0]\<rparr>) [3] = Inr (Num (ln 10)) \<and>
   Classifier_logits zero_classifier blank_image = Inr \<lparr>cols = 10, rows = [replicate 10 0]\<rparr> \<and>
   Classifier_forward zero_classifier blank_image
     = Inr \<lparr>cols = 10, rows = [replicate 10 (- ln 10)]\<rparr> \<and>
   nll_loss \<lparr>cols = 10, rows = [replicate 10 (- ln 10)]\<rparr> [7] = Inr (Num (ln 10))"
proof -
  let ?s = "\<lparr>cols = 10, rows = [replicate 10 (0::real)]\<rparr>"
  have "list_all (\<lambda>row. \<exists>s::real. row = replicate 10 s) (rows ?s)"
    by auto
  moreover have "(0::nat) < 10" "[3::int] \<noteq> []" "list_all (\<lambda>t. 0 \<le> t \<and> t < int 10) [3]"
    "cols ?s = 10" "length (rows ?s) = length [3::int]"
    "shape blank_image = length [7::int] # [1, 28, 28]" "[7::int] \<noteq> []"
    "list_all (\<lambda>t. 0 \<le> t \<and> t < 10) [7::int]"
    by (simp_all add: blank_image_def)
  ultimately have u:
    "log_softmax ?s
       = \<lparr>cols = 10, rows = replicate (length [3::int]) (replicate 10 (- ln (real 10)))\<rparr> \<and>
     nll_loss (log_softmax ?s) [3] = Inr (Num (ln (real 10))) \<and>
     Classifier_logits zero_classifier blank_image
       = Inr \<lparr>cols = 10, rows = replicate (length [7::int]) (replicate 10 0)\<rparr> \<and>
     Classifier_forward zero_classifier blank_image
       = Inr \<lparr>cols = 10, rows = replicate (length [7::int]) (replicate 10 (- ln 10))\<rparr> \<and>
     nll_loss \<lparr>cols = 10, rows = replicate (length [7::int]) (replicate 10 (- ln 10))\<rparr> [7]
       = Inr (Num (ln 10))"
    using blank_image_ok(3,5) by (intro equal_scores_uniform_loss)
  have 1: "log_softmax ?s = \<lparr>cols = 10, rows = [replicate 10 (- ln 10)]\<rparr>"
    using u[THEN conjunct1] by simp
  have 2: "nll_loss (log_softmax ?s) [3] = Inr (Num (ln 10))"
    using u[THEN conjunct2, THEN conjunct1] by simp
  have 3: "Classifier_logits zero_classifier blank_image
             = Inr \<lparr>cols = 10, rows = [replicate 10 0]\<rparr>"
    using u[THEN conjunct2, THEN conjunct2, THEN conjunct1] by simp
  have 4: "Classifier_forward zero_classifier blank_image
             = Inr \<lparr>cols = 10, rows = [replicate 10 (- ln 10)]\<rparr>"
    using u[THEN conjunct2, THEN conjunct2, THEN conjunct2, THEN conjunct1] by simp
  have 5: "nll_loss \<lparr>cols = 10, rows = [replicate 10 (- ln 10)]\<rparr> [7] = Inr (Num (ln 10))"
    using u[THEN conjunct2, THEN conjunct2, THEN conjunct2, THEN conjunct2] by simp
  show ?thesis using 1 2 3 4 5 by blast
qed

text \<open>
  C2, as stated, fails: \<^verbatim>\<open>forward\<close> does not return the scores of the last layer. On a
  blank image the network with zero weights has scores 0 in every class and returns
  \<open>- ln 10\<close> in every class.
\<close>

theorem forward_is_not_the_logits:
  "Classifier_logits zero_classifier blank_image = Inr \<lparr>cols = 10, rows = [replicate 10 0]\<rparr> \<and>
   Classifier_forward zero_classifier blank_image
     = Inr \<lparr>cols = 10, rows = [replicate 10 (- ln 10)]\<rparr> \<and>
   Classifier_forward zero_classifier blank_image
     \<noteq> Classifier_logits zero_classifier blank_image"
proof -
  have z: "Classifier_logits zero_classifier blank_image
             = Inr \<lparr>cols = 10, rows = [replicate 10 0]\<rparr>"
    using Classifier_logits_zero[OF blank_image_ok(2) _ blank_image_ok(5,3)] by simp
  have "ln (10::real) \<noteq> 0" by simp
  then show ?thesis
    by (simp add: Classifier_forward_blank z)
qed

text \<open>
  C2, amended. The classifier computes its scores as the specification says, by affine
  transforms \<open>W x + b\<close> with the rectifier \<open>max(0, x)\<close> after each of them but the last (four
  in the classifier, three in the sequential model, on the rows of the flattened input),
  and \<^verbatim>\<open>forward\<close> then normalises them itself: every returned row is the row of scores
  minus the logarithm of the sum of their exponentials, has one entry per class (10) and
  exponentials that add up to 1.
\<close>

theorem forward_returns_log_probabilities:
  assumes "Classifier_init c" and "wf_tensor x" and "Classifier_forward c x = Inr out"
    and "Sequential_init l0 l2 l4" and "wf_matrix y"
    and "Sequential_forward (Sequential l0 l2 l4) y = Inr out'"
  shows "(\<exists>images z.
            view_flat x = Inr images \<and> Classifier_logits c x = Inr z \<and>
            rows z = map (layered_scores [fc1 c, fc2 c, fc3 c, fc4 c]) (rows images) \<and>
            rows out = map log_probabilities (rows z)) \<and>
         cols out = 10 \<and>
         list_all (\<lambda>row. length row = 10 \<and> sum_list (map exp row) = 1) (rows out) \<and>
         rows out' = map (\<lambda>r. log_probabilities (layered_scores [l0, l2, l4] r)) (rows y) \<and>
         cols out' = 10 \<and>
         list_all (\<lambda>row. length row = 10 \<and> sum_list (map exp row) = 1) (rows out')"
proof -
  obtain z where z: "Classifier_logits c x = Inr z" "out = log_softmax z"
    using assms(3) by (auto simp: Classifier_forward_logits split: sum.splits)
  from assms(1) z(1) obtain images where
    v: "view_flat x = Inr images" "cols images = 784" and
    w: "cols z = 10" "list_all (\<lambda>r. length r = 10) (rows z)"
    by (rule Classifier_logits_Inr)
  have s: "sized 784 256 (fc1 c)" "sized 256 128 (fc2 c)" "sized 128 64 (fc3 c)"
      "sized 64 10 (fc4 c)"
    using assms(1) by (simp_all add: Classifier_init_def)
  have len: "\<And>r. r \<in> set (rows images) \<Longrightarrow> length r = 784"
    using view_flat_wf[OF assms(2) v(1)] v(2) by (simp add: wf_matrix_def list_all_iff)
  have "rows z = map (\<lambda>r. linear_row (fc4 c) (map (max 0)
                            (linear_row (fc3 c) (map (max 0)
                              (linear_row (fc2 c) (map (max 0)
                                (linear_row (fc1 c) r)))))))
                       (rows images)"
    using Classifier_logits_rows[OF assms(1) v] z(1) by simp
  then have scores: "rows z = map (layered_scores [fc1 c, fc2 c, fc3 c, fc4 c]) (rows images)"
    using len by (simp add: four_layers[OF s])
  have ne: "\<And>r. r \<in> set (rows z) \<Longrightarrow> r \<noteq> []"
    using w(2) by (auto simp: list_all_iff)
  then have norm: "rows out = map log_probabilities (rows z)"
    by (simp add: z(2) log_softmax_row_log_probabilities)
  have rows10: "list_all (\<lambda>row. length row = 10 \<and> sum_list (map exp row) = 1) (rows out)"
    using w(2) ne by (simp add: z(2) list_all_iff log_softmax_row_normalised)
  have t: "sized 784 128 l0" "sized 128 64 l2" "sized 64 10 l4"
    using assms(4) by (simp_all add: Sequential_init_def)
  note o = Sequential_forward_Inr[OF assms(4,6)]
  have len': "\<And>r. r \<in> set (rows y) \<Longrightarrow> length r = 784"
    using assms(5) o(1) by (simp add: wf_matrix_def list_all_iff)
  have "length (linear_row l4 v) = 10" for v
    using t(3) by (simp add: sized_def length_linear_row)
  then have ne': "linear_row l4 v \<noteq> []" for v
    by (metis length_0_conv zero_neq_numeral)
  have seq: "rows out' = map (\<lambda>r. log_probabilities (layered_scores [l0, l2, l4] r)) (rows y)"
    using len' by (simp add: o(2) log_softmax_row_log_probabilities[OF ne']
          three_layers[OF t])
  show ?thesis
    using v(1) z(1) scores norm rows10 seq Sequential_forward_normalised(1,3)[OF assms(4,6)]
    by (simp add: z(2) w(1))
qed

theorem forward_returns_log_probabilities_witness:
  "Classifier_forward example_classifier unit_image
     = Inr \<lparr>cols = 10, rows = [log_softmax_row (1 # replicate 9 0)]\<rparr> \<and>
   Classifier_logits example_classifier unit_image
     = Inr \<lparr>cols = 10, rows = [1 # replicate 9 0]\<rparr> \<and>
   [1 # replicate 9 0]
     = map (layered_scores [fc1 example_classifier, fc2 example_classifier,
                            fc3 example_classifier, fc4 example_classifier])
         [replicate 784 1] \<and>
   [log_softmax_row (1 # replicate 9 0)] = map log_probabilities [1 # replicate 9 0] \<and>
   Sequential_forward
     (Sequential (uniform_linear 784 128 (- 1 / 784) 0) (uniform_linear 128 64 (1 / 128) 1)
        first_class_linear)
     \<lparr>cols = 784, rows = [replicate 784 1]\<rparr>
     = Inr \<lparr>cols = 10, rows = [log_softmax_row (1 # replicate 9 0)]\<rparr> \<and>
   [log_softmax_row (1 # replicate 9 0)]
     = map (\<lambda>r. log_probabilities
                 (layered_scores [uniform_linear 784 128 (- 1 / 784) 0,
                                  uniform_linear 128 64 (1 / 128) 1, first_class_linear] r))
         [replicate 784 1]"
proof -
  let ?y = "\<lparr>cols = 784, rows = [replicate 784 (1::real)]\<rparr>"
  have y: "wf_matrix ?y" by (simp add: wf_matrix_def)
  have z: "Classifier_logits example_classifier unit_image
             = Inr \<lparr>cols = 10, rows = [1 # replicate 9 0]\<rparr>"
    using Classifier_logits_rows[OF Classifier_init_example view_flat_unit]
    by (simp add: example_classifier_def linear_row_uniform linear_row_first_class)
  note t = forward_returns_log_probabilities[OF Classifier_init_example unit_image_ok(1)
      Classifier_forward_example Sequential_init_example y Sequential_forward_example]
  from t[THEN conjunct1] obtain im z' where
    a: "view_flat unit_image = Inr im" "Classifier_logits example_classifier unit_image = Inr z'"
      "rows z' = map (layered_scores [fc1 example_classifier, fc2 example_classifier,
                                      fc3 example_classifier, fc4 example_classifier]) (rows im)"
      "rows \<lparr>cols = 10, rows = [log_softmax_row (1 # replicate 9 0)]\<rparr>
         = map log_probabilities (rows z')"
    by blast
  have im: "im = \<lparr>cols = 784, rows = [replicate 784 1]\<rparr>"
    using a(1) by (simp add: view_flat_unit)
  have z': "z' = \<lparr>cols = 10, rows = [1 # replicate 9 0]\<rparr>"
    using a(2) by (simp add: z)
  have 1: "[1 # replicate 9 0]
          = map (layered_scores [fc1 example_classifier, fc2 example_classifier,
                                 fc3 example_classifier, fc4 example_classifier])
              [replicate 784 1]"
    using a(3) by (simp add: im z')
  have 2: "[log_softmax_row (1 # replicate 9 0)] = map log_probabilities [1 # replicate 9 0]"
    using a(4) by (simp add: z')
  have 3: "[log_softmax_row (1 # replicate 9 0)]
     = map (\<lambda>r. log_probabilities
                 (layered_scores [uniform_linear 784 128 (- 1 / 784) 0,
                                  uniform_linear 128 64 (1 / 128) 1, first_class_linear] r))
         [replicate 784 1]"
    using t[THEN conjunct2, THEN conjunct2, THEN conjunct2, THEN conjunct1] by simp
  show ?thesis
    using Classifier_forward_example z 1 2 Sequential_forward_example 3 by blast
qed

lemma empty_batch_ok:
  "wf_tensor empty_batch" "contiguous empty_batch" "prod_list (tl (shape empty_batch)) = 784"
  by (simp_all add: empty_batch_def wf_tensor_def contiguous_def)

lemma transposed_image_ok:
  "wf_tensor transposed_image" "prod_list (tl (shape transposed_image)) = 784"
  "shape transposed_image = 1 # [1, 28, 28]" "\<not> flattenable transposed_image"
  by (simp_all add: transposed_image_def wf_tensor_def flattenable_def)

text \<open>
  C10, as stated, fails for a batch of no image: each of its examples would have 784
  elements, but \<^verbatim>\<open>view(0, -1)\<close> is refused, so the pass neither succeeds nor
  reaches the first linear layer. It also fails for one image of 784 elements whose
  last two dimensions were transposed: \<^verbatim>\<open>view\<close> cannot merge its dimensions and
  refuses it.
\<close>

theorem empty_batch_is_refused_by_view:
  "wf_tensor empty_batch \<and> contiguous empty_batch \<and>
   prod_list (tl (shape empty_batch)) = 784 \<and>
   Classifier_forward zero_classifier empty_batch = Inl ViewError \<and>
   wf_tensor transposed_image \<and> prod_list (tl (shape transposed_image)) = 784 \<and>
   Classifier_forward zero_classifier transposed_image = Inl ViewError"
proof -
  have "view_flat empty_batch = Inl ViewError"
    by (simp add: view_flat_def empty_batch_def)
  moreover have "view_flat transposed_image = Inl ViewError"
    using view_flat_refuses[OF transposed_image_ok(3)] transposed_image_ok(4) by simp
  ultimately show ?thesis
    by (simp add: empty_batch_ok transposed_image_ok Classifier_forward_def)
qed

lemma forward_flattened:
  assumes "Classifier_init c" and "Sequential_init l0 l2 l4"
    and "shape x = b # rest" and "0 < b" and "flattenable x"
  shows "(prod_list rest = 784 \<longrightarrow>
            (\<exists>out. Classifier_forward c x = Inr out \<and> cols out = 10 \<and>
                   length (rows out) = b \<and> list_all (\<lambda>row. length row = 10) (rows out)) \<and>
            (\<exists>images out. view_flat x = Inr images \<and>
                   Sequential_forward (Sequential l0 l2 l4) images = Inr out \<and>
                   cols out = 10 \<and> length (rows out) = b \<and>
                   list_all (\<lambda>row. length row = 10) (rows out))) \<and>
         (prod_list rest \<noteq> 784 \<longrightarrow>
            Classifier_forward c x = Inl SizeMismatch \<and>
            (\<exists>images. view_flat x = Inr images \<and>
                   Sequential_forward (Sequential l0 l2 l4) images = Inl SizeMismatch))"
proof -
  let ?images = "\<lparr>cols = prod_list rest,
                  rows = map (\<lambda>i. take (prod_list rest) (drop (i * prod_list rest) (data x)))
                           [0..<b]\<rparr>"
  have v: "view_flat x = Inr ?images" by (rule view_flat_rows[OF assms(3-5)])
  show ?thesis
  proof (intro conjI impI)
    assume k: "prod_list rest = 784"
    then have w: "cols ?images = 784" by simp
    have s: "wf_linear (fc4 c)" "out_features (fc4 c) = 10"
      using assms(1) by (simp_all add: Classifier_init_def sized_def)
    show "\<exists>out. Classifier_forward c x = Inr out \<and> cols out = 10 \<and>
                length (rows out) = b \<and> list_all (\<lambda>row. length row = 10) (rows out)"
      using Classifier_logits_rows[OF assms(1) v w] s
      by (simp add: Classifier_forward_logits list_all_iff length_linear_row)
    obtain out where out: "Sequential_forward (Sequential l0 l2 l4) ?images = Inr out"
      using Sequential_forward_rows[OF assms(2) w] by blast
    have "list_all (\<lambda>row. length row = 10) (rows out)"
      using Sequential_forward_normalised(3)[OF assms(2) out] by (simp add: list_all_iff)
    moreover have "cols out = 10" "length (rows out) = b"
      using Sequential_forward_normalised(1,2)[OF assms(2) out] by simp_all
    ultimately show "\<exists>images out. view_flat x = Inr images \<and>
        Sequential_forward (Sequential l0 l2 l4) images = Inr out \<and>
        cols out = 10 \<and> length (rows out) = b \<and> list_all (\<lambda>row. length row = 10) (rows out)"
      using v out by blast
  next
    assume k: "prod_list rest \<noteq> 784"
    then have w: "cols ?images \<noteq> 784" by simp
    show "Classifier_forward c x = Inl SizeMismatch"
      using Classifier_logits_rejects[OF assms(1) v w]
      by (simp add: Classifier_forward_logits)
    show "\<exists>images. view_flat x = Inr images \<and>
            Sequential_forward (Sequential l0 l2 l4) images = Inl SizeMismatch"
      using Sequential_forward_rejects[OF assms(2) w] v by blast
  qed
qed

text \<open>
  C10, amended. For an input of any rank with at least one example whose dimensions
  after the first \<^verbatim>\<open>view\<close> can merge, as it can for every contiguous tensor: when the
  elements per example number 784 the forward pass succeeds and its result has the shape
  (batch, 10); otherwise the first linear layer refuses the input with a size mismatch.
  An input with no example, or with strides that do not let the dimensions merge, is
  refused before any layer, by \<^verbatim>\<open>view\<close>.
\<close>

theorem forward_checks_the_flattened_width:
  assumes "Classifier_init c" and "Sequential_init l0 l2 l4" and "shape x = b # rest"
  shows "(0 < b \<and> flattenable x \<and> prod_list rest = 784 \<longrightarrow>
            (\<exists>out. Classifier_forward c x = Inr out \<and> cols out = 10 \<and>
                   length (rows out) = b \<and> list_all (\<lambda>row. length row = 10) (rows out)) \<and>
            (\<exists>images out. view_flat x = Inr images \<and>
                   Sequential_forward (Sequential l0 l2 l4) images = Inr out \<and>
                   cols out = 10 \<and> length (rows out) = b \<and>
                   list_all (\<lambda>row. length row = 10) (rows out))) \<and>
         (0 < b \<and> flattenable x \<and> prod_list rest \<noteq> 784 \<longrightarrow>
            Classifier_forward c x = Inl SizeMismatch \<and>
            (\<exists>images. view_flat x = Inr images \<and>
                   Sequential_forward (Sequential l0 l2 l4) images = Inl SizeMismatch)) \<and>
         (b = 0 \<or> \<not> flattenable x \<longrightarrow>
            Classifier_forward c x = Inl ViewError \<and> view_flat x = Inl ViewError) \<and>
         (contiguous x \<longrightarrow> flattenable x)"
proof (cases "0 < b \<and> flattenable x")
  case True
  then have "0 < b" "flattenable x" by simp_all
  from forward_flattened[OF assms this] show ?thesis
    using True by (simp add: contiguous_flattenable)
next
  case False
  then have "b = 0 \<or> \<not> flattenable x" by auto
  from view_flat_refuses[OF assms(3) this] show ?thesis
    using False contiguous_flattenable[of x] by (auto simp: Classifier_forward_def)
qed

theorem forward_checks_the_flattened_width_witness:
  "(\<exists>out. Classifier_forward zero_classifier blank_image = Inr out \<and> cols out = 10 \<and>
          length (rows out) = 1 \<and> list_all (\<lambda>row. length row = 10) (rows out)) \<and>
   (\<exists>images out. view_flat blank_image = Inr images \<and>
          Sequential_forward zero_sequential images = Inr out \<and> cols out = 10 \<and>
          length (rows out) = 1 \<and> list_all (\<lambda>row. length row = 10) (rows out)) \<and>
   Classifier_forward zero_classifier narrow_batch = Inl SizeMismatch \<and>
   (\<exists>images. view_flat narrow_batch = Inr images \<and>
          Sequential_forward zero_sequential images = Inl SizeMismatch) \<and>
   Classifier_forward zero_classifier transposed_image = Inl ViewError \<and>
   view_flat transposed_image = Inl ViewError \<and>
   view_flat \<lparr>shape = [0, 784], stride = [784, 1], data = []\<rparr> = Inl ViewError"
proof -
  have n: "shape narrow_batch = 2 # [3]" "flattenable narrow_batch"
    by (simp_all add: narrow_batch_def flattenable_def)
  note t = transposed_image_ok(3,4)
  have e: "shape \<lparr>shape = [0, 784], stride = [784, 1], data = []\<rparr> = 0 # [784]"
    by simp
  show ?thesis
    using forward_checks_the_flattened_width[OF Classifier_init_zero Sequential_init_zero
        blank_image_ok(2)]
      forward_checks_the_flattened_width[OF Classifier_init_zero Sequential_init_zero n(1)]
      forward_checks_the_flattened_width[OF Classifier_init_zero Sequential_init_zero t(1)]
      forward_checks_the_flattened_width[OF Classifier_init_zero Sequential_init_zero e]
      blank_image_ok(5) n(2) t(2)
    by (simp add: zero_sequential_def)
qed

section \<open>What the calls of a session change\<close>

lemma emit_fields [simp]:
  "params (emit e st) = params st" "grad (emit e st) = grad st" "opt (emit e st) = opt st"
  "training (emit e st) = training st" "draws (emit e st) = draws st"
  "trace (emit e st) = trace st @ [e]"
  by (simp_all add: emit_def)

lemma model_call_Inr:
  assumes "model_call S st x = Inr (out, st')"
  shows "model S (training st) (draws st) (params st) x = Inr out"
    and "st' = emit Forward (st\<lparr>draws := draws st + (if training st then consumed S else 0)\<rparr>)"
  using assms by (auto simp: model_call_def split: sum.splits)

lemma model_call_frame:
  assumes "model_call S st x = Inr (out, st')"
  shows "params st' = params st" "grad st' = grad st" "opt st' = opt st"
    "training st' = training st" "trace st' = trace st @ [Forward]"
    "draws st' = draws st + (if training st then consumed S else 0)"
  using model_call_Inr(2)[OF assms] by simp_all

lemma validation_batches_frame:
  assumes "validation_batches S st l0 a0 bs = Inr (l, a, st')"
  shows "params st' = params st \<and> grad st' = grad st \<and> opt st' = opt st \<and>
         training st' = training st \<and> (\<not> training st \<longrightarrow> draws st' = draws st)"
  using assms
proof (induction bs arbitrary: st l0 a0)
  case Nil
  then show ?case by simp
next
  case (Cons b bs)
  from Cons.prems obtain log_ps st1 lb ab where
    call: "model_call S st (fst b) = Inr (log_ps, st1)" and
    rest: "validation_batches S (emit Accuracy (emit Loss st1)) (add l0 lb) (add a0 ab) bs
             = Inr (l, a, st')"
    by (auto split: sum.splits)
  show ?case
    using Cons.IH[OF rest] model_call_frame[OF call] by simp
qed

lemma model_eval_fields [simp]:
  "params (model_eval st) = params st" "grad (model_eval st) = grad st"
  "opt (model_eval st) = opt st" "training (model_eval st) = False"
  "draws (model_eval st) = draws st" "trace (model_eval st) = trace st @ [Eval]"
  by (simp_all add: model_eval_def)

lemma model_train_fields [simp]:
  "params (model_train st) = params st" "grad (model_train st) = grad st"
  "opt (model_train st) = opt st" "training (model_train st) = True"
  "draws (model_train st) = draws st" "trace (model_train st) = trace st @ [Train]"
  by (simp_all add: model_train_def)

lemma new_session_fields [simp]:
  "params (new_session p s) = p" "grad (new_session p s) = None" "opt (new_session p s) = s"
  "training (new_session p s) = True" "draws (new_session p s) = 0"
  "trace (new_session p s) = []"
  by (simp_all add: new_session_def)

lemma training_notebook_fields [simp]:
  "criterion (training_notebook ag) = nll_loss"
  "consumed (training_notebook ag) = 0"
  "model (training_notebook ag) mode pos ms x = Sequential_forward ms x"
  "autograd (training_notebook ag) = ag"
  "optimizer (training_notebook ag) = SGD sequential_map2 0.003"
  "pmap (training_notebook ag) = sequential_map"
  "pmap2 (training_notebook ag) = sequential_map2"
  by (simp_all add: training_notebook_def)

lemma validation_notebook_fields [simp]:
  "criterion (validation_notebook tie ag) = nll_loss"
  "consumed (validation_notebook tie ag) = 0"
  "model (validation_notebook tie ag) mode pos c x = Classifier_forward c x"
  "autograd (validation_notebook tie ag) = ag"
  "optimizer (validation_notebook tie ag) = Adam classifier_map classifier_map2 0.003"
  "pmap (validation_notebook tie ag) = classifier_map"
  "pmap2 (validation_notebook tie ag) = classifier_map2"
  "ties (validation_notebook tie ag) = tie"
  by (simp_all add: validation_notebook_def)

lemma dropout_notebook_fields [simp]:
  "criterion (dropout_notebook tie gen ag) = nll_loss"
  "consumed (dropout_notebook tie gen ag) = 3"
  "model (dropout_notebook tie gen ag) mode pos c x
     = Classifier_dropout_forward mode (gen pos) (gen (pos + 1)) (gen (pos + 2)) c x"
  "autograd (dropout_notebook tie gen ag) = ag"
  "optimizer (dropout_notebook tie gen ag) = Adam classifier_map classifier_map2 0.004"
  "pmap (dropout_notebook tie gen ag) = classifier_map"
  "pmap2 (dropout_notebook tie gen ag) = classifier_map2"
  "ties (dropout_notebook tie gen ag) = tie"
  by (simp_all add: dropout_notebook_def)

section \<open>The largest entry of a row\<close>

lemma first_largest_largest:
  assumes "ps \<noteq> []"
  shows "largest ps (first_largest ps)"
proof -
  let ?P = "\<lambda>v. v < row_max ps"
  have m: "row_max ps = Max (set ps)" using assms by (rule row_max_Max)
  have "Max (set ps) \<in> set ps" using assms by (intro Max_in) simp_all
  then have "\<exists>v\<in>set ps. \<not> ?P v" using m by auto
  then have "takeWhile ?P ps \<noteq> ps" by (simp add: takeWhile_eq_all_conv)
  then have lt: "length (takeWhile ?P ps) < length ps"
    using length_takeWhile_le[of ?P ps]
    by (metis le_neq_implies_less takeWhile_eq_take take_all_iff order_refl)
  then have "\<not> ?P (ps ! length (takeWhile ?P ps))" by (rule nth_length_takeWhile)
  then have "Max (set ps) \<le> ps ! first_largest ps" by (simp add: first_largest_def m)
  moreover have "v \<le> Max (set ps)" if "v \<in> set ps" for v
    using that by (intro Max_ge) simp_all
  ultimately have "\<And>v. v \<in> set ps \<Longrightarrow> v \<le> ps ! first_largest ps"
    using order_trans by blast
  then show ?thesis using lt by (simp add: largest_def list_all_iff first_largest_def)
qed

lemma top_index_largest: "ps \<noteq> [] \<Longrightarrow> largest ps (top_index tie ps)"
  by (simp add: top_index_def first_largest_largest)



lemma top_index_strict:
  assumes "k < length row" "\<And>j. j < length row \<Longrightarrow> j \<noteq> k \<Longrightarrow> row ! j < row ! k"
  shows "top_index tie row = k"
proof -
  have "row \<noteq> []" using assms(1) by auto
  then have l: "largest row (top_index tie row)" by (rule top_index_largest)
  then have "top_index tie row < length row" "row ! k \<le> row ! top_index tie row"
    using assms(1) by (simp_all add: largest_def list_all_iff)
  then show ?thesis using assms(2)[of "top_index tie row"] by fastforce
qed

lemma top_index_first:
  assumes "b < a"
  shows "top_index tie (map exp (log_softmax_row (a # replicate n b))) = 0"
proof (rule top_index_strict)
  show "0 < length (map exp (log_softmax_row (a # replicate n b)))" by simp
next
  fix j assume j: "j < length (map exp (log_softmax_row (a # replicate n b)))" "j \<noteq> 0"
  then obtain i where i: "j = Suc i" "i < n" by (cases j) auto
  show "map exp (log_softmax_row (a # replicate n b)) ! j
          < map exp (log_softmax_row (a # replicate n b)) ! 0"
    using assms i by (simp add: log_softmax_row_plain)
qed

section \<open>The accuracy of a batch\<close>






section \<open>One image per batch\<close>

lemma nll_loss_single:
  assumes "0 \<le> t" "t < int c"
  shows "nll_loss \<lparr>cols = c, rows = [r]\<rparr> [t] = Inr (Num (- (r ! nat t)))"
  using assms by (simp add: nll_loss_def valid_target_def ignore_index_def mean_def)

lemma batch_accuracy_single:
  assumes "c \<noteq> 0"
  shows "batch_accuracy tie \<lparr>cols = c, rows = [r]\<rparr> [t]
           = Inr (Num (if int (top_index tie (map exp r)) = t then 1 else 0))"
  using assms by (simp add: batch_accuracy_def topk1_def mean_def)

lemma validation_step_single:
  assumes "model S (training st) (draws st) (params st) x = Inr \<lparr>cols = 10, rows = [r]\<rparr>"
    and "criterion S = nll_loss" and "0 \<le> t" and "t < 10"
  shows "validation_batches S st l0 a0 ((x, [t]) # bs) =
         validation_batches S
           (emit Accuracy (emit Loss (emit Forward
              (st\<lparr>draws := draws st + (if training st then consumed S else 0)\<rparr>))))
           (add l0 (Num (- (r ! nat t))))
           (add a0 (Num (if int (top_index (ties S) (map exp r)) = t then 1 else 0))) bs"
  using assms(1,2) nll_loss_single[of t 10 r] assms(3,4)
  by (simp add: model_call_def batch_accuracy_single)

lemma first_class_scores:
  "log_softmax_row (1 # replicate 9 0) ! 0 = 1 - ln (exp 1 + 9)"
  "log_softmax_row (1 # replicate 9 0) ! 3 = - ln (exp 1 + 9)"
  "top_index tie (map exp (log_softmax_row (1 # replicate 9 0))) = 0"
proof -
  show "log_softmax_row (1 # replicate 9 0) ! 0 = 1 - ln (exp 1 + 9)"
    "log_softmax_row (1 # replicate 9 0) ! 3 = - ln (exp 1 + 9)"
    by (simp_all add: log_softmax_row_plain sum_list_replicate)
  show "top_index tie (map exp (log_softmax_row (1 # replicate 9 0))) = 0"
    by (rule top_index_first) simp
qed

section \<open>Claims about the evaluation pass\<close>

text \<open>
  C7. The validation pass, started from the session as it is (first loop) or after
  \<^verbatim>\<open>model.eval()\<close> (loop with dropout), over any list of batches: when it completes, the
  parameters, the gradient buffers and the optimizer's state are what they were.
\<close>

theorem evaluation_leaves_parameters_and_gradients:
  assumes "validation_batches S st1 (Num 0) (Num 0) bs = Inr (test_loss, accuracy, st')"
    and "st1 = st \<or> st1 = model_eval st"
  shows "params st' = params st \<and> grad st' = grad st \<and> opt st' = opt st"
proof -
  have pass: "params st' = params st1" "grad st' = grad st1" "opt st' = opt st1"
    using validation_batches_frame[OF assms(1)] by simp_all
  have switch: "params st1 = params st" "grad st1 = grad st" "opt st1 = opt st"
    using assms(2) by auto
  show ?thesis by (simp add: pass switch)
qed

lemma first_class_pass:
  assumes "\<not> training st" and "params st = biased_classifier (1 # replicate 9 0)"
  shows "validation_batches (dropout_notebook tie gen ag) st l0 a0 ((blank_image, [0]) # bs)
         = validation_batches (dropout_notebook tie gen ag)
             (emit Accuracy (emit Loss (emit Forward (st\<lparr>draws := draws st\<rparr>))))
             (add l0 (Num (ln (exp 1 + 9) - 1))) (add a0 (Num 1)) bs"
proof -
  have "model (dropout_notebook tie gen ag) (training st) (draws st) (params st) blank_image
          = Inr \<lparr>cols = 10, rows = [log_softmax_row (1 # replicate 9 0)]\<rparr>"
    by (simp add: assms(2) Classifier_dropout_forward_biased)
  from validation_step_single[OF this, of 0 l0 a0 bs] show ?thesis
    using assms(1) by (simp add: first_class_scores)
qed

theorem evaluation_leaves_parameters_and_gradients_witness:
  "\<exists>st'. validation_batches (dropout_notebook first_largest keep_all zero_gradient)
            (model_eval (new_session (biased_classifier (1 # replicate 9 0)) None))
            (Num 0) (Num 0) [(blank_image, [0])]
          = Inr (Num (ln (exp 1 + 9) - 1), Num 1, st') \<and>
         params st' = biased_classifier (1 # replicate 9 0) \<and> grad st' = None \<and>
         opt st' = None"
proof -
  let ?S = "dropout_notebook first_largest keep_all zero_gradient"
  let ?st = "new_session (biased_classifier (1 # replicate 9 0))
               (None :: classifier adam_state option)"
  have "\<exists>st'. validation_batches ?S (model_eval ?st) (Num 0) (Num 0) [(blank_image, [0])]
               = Inr (Num (ln (exp 1 + 9) - 1), Num 1, st')"
    by (simp del: validation_batches.simps add: validation_batches.simps(1) first_class_pass)
  then obtain st' where run:
    "validation_batches ?S (model_eval ?st) (Num 0) (Num 0) [(blank_image, [0])]
       = Inr (Num (ln (exp 1 + 9) - 1), Num 1, st')"
    by blast
  from evaluation_leaves_parameters_and_gradients[OF run]
  have "params st' = params ?st \<and> grad st' = grad ?st \<and> opt st' = opt ?st"
    by blast
  then show ?thesis using run by simp
qed




lemma model_call_dropout_eval:
  assumes "\<not> training st"
  shows "model_call (dropout_notebook tie gen ag) st x =
         (case Classifier_forward (params st) x of Inl e \<Rightarrow> Inl e
          | Inr out \<Rightarrow> Inr (out, emit Forward st))"
  using assms
  by (simp add: model_call_def Classifier_dropout_forward_eval split: sum.splits)

lemma validation_eval_independent:
  assumes "\<not> training st" "\<not> training s" "params s = params st"
  shows "map_sum (\<lambda>e. e) (\<lambda>(l, a, _). (l, a))
           (validation_batches (dropout_notebook tie gen ag) st l0 a0 bs)
       = map_sum (\<lambda>e. e) (\<lambda>(l, a, _). (l, a))
           (validation_batches (dropout_notebook tie gen' ag') s l0 a0 bs)"
  using assms
proof (induction bs arbitrary: st s l0 a0)
  case Nil
  then show ?case by simp
next
  case (Cons b bs)
  have *: "map_sum (\<lambda>e. e) (\<lambda>(l, a, _). (l, a))
         (validation_batches (dropout_notebook tie gen ag)
            (emit Accuracy (emit Loss (emit Forward st))) l1 a1 bs)
     = map_sum (\<lambda>e. e) (\<lambda>(l, a, _). (l, a))
         (validation_batches (dropout_notebook tie gen' ag')
            (emit Accuracy (emit Loss (emit Forward s))) l1 a1 bs)"
    for l1 a1
    using Cons.prems by (intro Cons.IH) simp_all
  show ?case
    using Cons.prems(3) *
    by (simp add: model_call_dropout_eval[OF Cons.prems(1)]
          model_call_dropout_eval[OF Cons.prems(2)] split: sum.splits)
qed

text \<open>
  C8. A completed validation pass of the loop with dropout depends on the parameters and
  the batches only: run again from any session with the same parameters, with any mask
  generator and at any position in it, or run a second time right after the first, it
  returns the same loss and the same accuracy. In evaluation mode the classifier's
  output does not depend on the masks.
\<close>

theorem evaluation_is_deterministic:
  assumes "validation_batches (dropout_notebook tie gen ag) (model_eval st) (Num 0) (Num 0) bs
             = Inr (test_loss, accuracy, st1)"
    and "params s = params st"
  shows "(\<exists>st2. validation_batches (dropout_notebook tie gen' ag') (model_eval s)
                  (Num 0) (Num 0) bs = Inr (test_loss, accuracy, st2)) \<and>
         (\<exists>st2. validation_batches (dropout_notebook tie gen ag) (model_eval st1)
                  (Num 0) (Num 0) bs = Inr (test_loss, accuracy, st2)) \<and>
         Classifier_dropout_forward False m1 m2 m3 c x
           = Classifier_dropout_forward False m1' m2' m3' c x"
proof -
  have again: "\<exists>st2. validation_batches (dropout_notebook tie g a) (model_eval u)
                       (Num 0) (Num 0) bs = Inr (test_loss, accuracy, st2)"
    if "params u = params st" for g a and u :: "(classifier, classifier adam_state option) session"
  proof -
    have "map_sum (\<lambda>e. e) (\<lambda>(l, a, _). (l, a))
            (validation_batches (dropout_notebook tie g a) (model_eval u) (Num 0) (Num 0) bs)
          = Inr (test_loss, accuracy)"
      using validation_eval_independent[of "model_eval u" "model_eval st" tie g a
          "Num 0" "Num 0" bs gen ag]
        that assms(1) by simp
    then show ?thesis
      by (cases "validation_batches (dropout_notebook tie g a) (model_eval u) (Num 0) (Num 0) bs")
        auto
  qed
  have "params st1 = params st"
    using validation_batches_frame[OF assms(1)] by simp
  then show ?thesis
    using again[of s gen' ag'] again[of st1 gen ag] assms(2)
    by (simp add: Classifier_dropout_forward_eval)
qed

theorem evaluation_is_deterministic_witness:
  "\<exists>st1 st2 st3.
     validation_batches (dropout_notebook first_largest keep_all zero_gradient)
       (model_eval (new_session (biased_classifier (1 # replicate 9 0)) None))
       (Num 0) (Num 0) [(blank_image, [0])]
       = Inr (Num (ln (exp 1 + 9) - 1), Num 1, st1) \<and>
     validation_batches (dropout_notebook first_largest drop_all zero_gradient)
       (model_eval ((new_session (biased_classifier (1 # replicate 9 0)) None)\<lparr>draws := 6\<rparr>))
       (Num 0) (Num 0) [(blank_image, [0])]
       = Inr (Num (ln (exp 1 + 9) - 1), Num 1, st2) \<and>
     validation_batches (dropout_notebook first_largest keep_all zero_gradient)
       (model_eval st1) (Num 0) (Num 0) [(blank_image, [0])]
       = Inr (Num (ln (exp 1 + 9) - 1), Num 1, st3)"
proof -
  let ?S = "dropout_notebook first_largest keep_all zero_gradient"
  let ?st = "new_session (biased_classifier (1 # replicate 9 0))
               (None :: classifier adam_state option)"
  have "\<exists>st1. validation_batches ?S (model_eval ?st) (Num 0) (Num 0) [(blank_image, [0])]
               = Inr (Num (ln (exp 1 + 9) - 1), Num 1, st1)"
    by (simp del: validation_batches.simps add: validation_batches.simps(1) first_class_pass)
  then obtain st1 where run:
    "validation_batches ?S (model_eval ?st) (Num 0) (Num 0) [(blank_image, [0])]
       = Inr (Num (ln (exp 1 + 9) - 1), Num 1, st1)"
    by blast
  have same: "params (?st\<lparr>draws := 6\<rparr>) = params ?st" by simp
  show ?thesis
    using evaluation_is_deterministic[OF run same, of drop_all zero_gradient] run
    by blast
qed

section \<open>The training body\<close>

lemma zero_grad_fields [simp]:
  "params (zero_grad S st) = params st" "opt (zero_grad S st) = opt st"
  "training (zero_grad S st) = training st" "draws (zero_grad S st) = draws st"
  "trace (zero_grad S st) = trace st @ [ZeroGrad]"
  "grad (zero_grad S st) = map_option (pmap S (\<lambda>_. 0)) (grad st)"
  by (simp_all add: zero_grad_def)

lemma loss_backward_fields [simp]:
  "params (loss_backward S g st) = params st" "opt (loss_backward S g st) = opt st"
  "training (loss_backward S g st) = training st" "draws (loss_backward S g st) = draws st"
  "trace (loss_backward S g st) = trace st @ [Backward]"
  "grad (loss_backward S g st) = Some (case grad st of None \<Rightarrow> g | Some a \<Rightarrow> pmap2 S (+) a g)"
  by (simp_all add: loss_backward_def)

lemma optimizer_step_fields [simp]:
  "training (optimizer_step S st) = training st" "draws (optimizer_step S st) = draws st"
  "trace (optimizer_step S st) = trace st @ [Step]" "grad (optimizer_step S st) = grad st"
  by (simp_all add: optimizer_step_def Let_def split: option.splits)

lemma optimizer_step_Some:
  "grad st = Some g \<Longrightarrow>
   params (optimizer_step S st) = fst (optimizer S (params st) g (opt st)) \<and>
   opt (optimizer_step S st) = snd (optimizer S (params st) g (opt st))"
  by (simp add: optimizer_step_def Let_def)

lemma train_batch_Inr:
  assumes "train_batch S st batch = Inr (loss, st')"
  obtains log_ps st2 where
    "model_call S (zero_grad S st) (fst batch) = Inr (log_ps, st2)"
    "criterion S log_ps (snd batch) = Inr loss"
    "st' = optimizer_step S
             (loss_backward S (autograd S (training st) (draws st) (params st) batch)
                (emit Loss st2))"
  using assms by (auto simp: train_batch_def Let_def split: sum.splits)

lemma train_batch_trace:
  assumes "train_batch S st batch = Inr (loss, st')"
  shows "trace st' = trace st @ [ZeroGrad, Forward, Loss, Backward, Step]"
proof -
  from assms obtain log_ps st2 where
    call: "model_call S (zero_grad S st) (fst batch) = Inr (log_ps, st2)" and
    st': "st' = optimizer_step S
             (loss_backward S (autograd S (training st) (draws st) (params st) batch)
                (emit Loss st2))"
    by (rule train_batch_Inr)
  show ?thesis using model_call_frame(5)[OF call] by (simp add: st')
qed

lemma train_batch_result:
  assumes "train_batch S st batch = Inr (loss, st')"
    and "g = autograd S (training st) (draws st) (params st) batch"
    and "u = (case grad st of None \<Rightarrow> g | Some old \<Rightarrow> pmap2 S (+) (pmap S (\<lambda>_. 0) old) g)"
  shows "grad st' = Some u"
    and "params st' = fst (optimizer S (params st) u (opt st))"
    and "opt st' = snd (optimizer S (params st) u (opt st))"
    and "training st' = training st"
    and "draws st' = draws st + (if training st then consumed S else 0)"
proof -
  from assms(1) obtain log_ps st2 where
    call: "model_call S (zero_grad S st) (fst batch) = Inr (log_ps, st2)" and
    st': "st' = optimizer_step S (loss_backward S g (emit Loss st2))"
    unfolding assms(2) by (rule train_batch_Inr)
  have st2: "params st2 = params st" "opt st2 = opt st"
      "grad st2 = map_option (pmap S (\<lambda>_. 0)) (grad st)"
      "training st2 = training st"
      "draws st2 = draws st + (if training st then consumed S else 0)"
    using model_call_frame[OF call] by simp_all
  have gr: "grad (loss_backward S g (emit Loss st2)) = Some u"
    by (cases "grad st") (simp_all add: st2 assms(3))
  show "grad st' = Some u" by (simp only: st' optimizer_step_fields gr)
  show "params st' = fst (optimizer S (params st) u (opt st))"
    and "opt st' = snd (optimizer S (params st) u (opt st))"
    using optimizer_step_Some[OF gr, of S] by (simp_all add: st' st2)
  show "training st' = training st"
    and "draws st' = draws st + (if training st then consumed S else 0)"
    by (simp_all add: st' st2)
qed

lemma train_batch_state:
  assumes "train_batch S st batch = Inr (loss, st')"
  shows "training_state st' = train_step S (training st) (training_state st) batch"
    and "training st' = training st"
proof -
  note r = train_batch_result[OF assms refl refl]
  show "training st' = training st" by (rule r(4))
  show "training_state st' = train_step S (training st) (training_state st) batch"
    by (cases "grad st") (simp_all add: training_state_def train_step_def Let_def r)
qed

section \<open>Elementwise operations on the parameters\<close>

lemma map2_add_zero: "map2 (+) (map (\<lambda>_. 0::real) xs) xs = xs"
  by (induction xs) simp_all

lemma mat_add_zero: "map2 (map2 (+)) (map (map (\<lambda>_. 0::real)) W) W = W"
  by (induction W) (simp_all add: map2_add_zero)

lemma linear_add_zero: "linear_map2 (+) (linear_map (\<lambda>_. 0) g) g = g"
  by (simp add: linear_map2_def linear_map_def map2_add_zero mat_add_zero)

lemma classifier_add_zero: "classifier_map2 (+) (classifier_map (\<lambda>_. 0) g) g = g"
  by (simp add: classifier_map2_def classifier_map_def linear_add_zero)

lemma module_add_zero: "module_map2 (+) (module_map (\<lambda>_. 0) g) g = g"
  by (cases g) (simp_all add: linear_add_zero)

lemma sequential_add_zero: "sequential_map2 (+) (sequential_map (\<lambda>_. 0) g) g = g"
  unfolding sequential_map2_def sequential_map_def
  by (induction g) (simp_all add: module_add_zero)

lemma map2_map_right: "map2 f xs (map h ys) = map2 (\<lambda>a b. f a (h b)) xs ys"
  by (simp add: zip_map2 case_prod_unfold)

lemma map_map2: "map k (map2 j xs ys) = map2 (\<lambda>a b. k (j a b)) xs ys"
  by (simp add: case_prod_unfold)

lemma mat_map2_map_right:
  "map2 (map2 f) X (map (map h) Y) = map2 (map2 (\<lambda>a b. f a (h b))) X Y"
  by (simp add: zip_map2 case_prod_unfold map2_map_right)

lemma mat_map_map2:
  "map (map k) (map2 (map2 j) X Y) = map2 (map2 (\<lambda>a b. k (j a b))) X Y"
  by (simp add: case_prod_unfold map_map2)

lemma linear_map2_map_right:
  "linear_map2 f l (linear_map h g) = linear_map2 (\<lambda>a b. f a (h b)) l g"
  by (simp add: linear_map2_def linear_map_def zip_map2 case_prod_unfold comp_def)

lemma linear_map_map2:
  "linear_map k (linear_map2 j l g) = linear_map2 (\<lambda>a b. k (j a b)) l g"
  by (simp add: linear_map2_def linear_map_def case_prod_unfold comp_def)

lemma classifier_map2_map_right:
  "classifier_map2 f c (classifier_map h g) = classifier_map2 (\<lambda>a b. f a (h b)) c g"
  by (simp add: classifier_map2_def classifier_map_def linear_map2_map_right)

lemma classifier_map_map2:
  "classifier_map k (classifier_map2 j c g) = classifier_map2 (\<lambda>a b. k (j a b)) c g"
  by (simp add: classifier_map2_def classifier_map_def linear_map_map2)

lemma map2_first_step:
  "map2 f p (map2 s (map2 a (map z p) g) (map2 b (map z p) g))
     = map2 (\<lambda>w d. f w (s (a (z w) d) (b (z w) d))) p g"
proof (induction p arbitrary: g)
  case Nil
  then show ?case by simp
next
  case (Cons w p)
  then show ?case by (cases g) simp_all
qed

lemma mat_first_step:
  "map2 (map2 f) P (map2 (map2 s) (map2 (map2 a) (map (map z) P) G)
                      (map2 (map2 b) (map (map z) P) G))
     = map2 (map2 (\<lambda>w d. f w (s (a (z w) d) (b (z w) d)))) P G"
proof (induction P arbitrary: G)
  case Nil
  then show ?case by simp
next
  case (Cons w P)
  then show ?case by (cases G) (simp_all add: map2_first_step)
qed

lemma linear_first_step:
  "linear_map2 f p (linear_map2 s (linear_map2 a (linear_map z p) g)
                      (linear_map2 b (linear_map z p) g))
     = linear_map2 (\<lambda>w d. f w (s (a (z w) d) (b (z w) d))) p g"
  by (simp add: linear_map2_def linear_map_def map2_first_step mat_first_step)

lemma classifier_first_step:
  "classifier_map2 f p (classifier_map2 s (classifier_map2 a (classifier_map z p) g)
                          (classifier_map2 b (classifier_map z p) g))
     = classifier_map2 (\<lambda>w d. f w (s (a (z w) d) (b (z w) d))) p g"
  by (simp add: classifier_map2_def classifier_map_def linear_first_step)

section \<open>Adam's step\<close>

lemma adam_step_factors:
  "adam_step lr t a b
     = lr / (1 - (9 / 10) ^ t) * (a / (sqrt (b / (1 - (999 / 1000) ^ t)) + 1 / 10 ^ 8))"
  by (simp add: adam_step_def)

lemma Adam_explicit:
  assumes "t = (case s of None \<Rightarrow> 1 | Some a \<Rightarrow> step_count a + 1)"
    and "m = classifier_map2 (\<lambda>a d. 9 / 10 * a + 1 / 10 * d)
               (case s of None \<Rightarrow> classifier_map (\<lambda>_. 0) p | Some a \<Rightarrow> exp_avg a) g"
    and "v = classifier_map2 (\<lambda>a d. 999 / 1000 * a + 1 / 1000 * d * d)
               (case s of None \<Rightarrow> classifier_map (\<lambda>_. 0) p | Some a \<Rightarrow> exp_avg_sq a) g"
  shows "Adam classifier_map classifier_map2 lr p g s
         = (classifier_map2 (-) p (classifier_map2 (adam_step lr t) m v),
            Some \<lparr>step_count = t, exp_avg = m, exp_avg_sq = v\<rparr>)"
proof -
  define s0 where "s0 = (case s of
                  None \<Rightarrow> \<lparr>step_count = 0, exp_avg = classifier_map (\<lambda>_. 0) p,
                           exp_avg_sq = classifier_map (\<lambda>_. 0) p\<rparr>
                | Some s' \<Rightarrow> s')"
  define ss where "ss = lr / (1 - beta1 ^ t)"
  define h where "h = (\<lambda>a::real. sqrt (a / (1 - beta2 ^ t)) + adam_eps)"
  have t: "step_count s0 + 1 = t"
    using assms(1) by (cases s) (simp_all add: s0_def)
  have m: "classifier_map2 (\<lambda>a d. beta1 * a + (1 - beta1) * d) (exp_avg s0) g = m"
    using assms(2) by (cases s) (simp_all add: s0_def beta1_def)
  have v: "classifier_map2 (\<lambda>a d. beta2 * a + (1 - beta2) * d * d) (exp_avg_sq s0) g = v"
    using assms(3) by (cases s) (simp_all add: s0_def beta2_def)
  have A: "Adam classifier_map classifier_map2 lr p g s
           = (classifier_map2 (\<lambda>w u. w - ss * u) p (classifier_map2 (/) m (classifier_map h v)),
              Some \<lparr>step_count = t, exp_avg = m, exp_avg_sq = v\<rparr>)"
    by (simp only: Adam_def Let_def s0_def[symmetric] t m v ss_def h_def)
  have step: "adam_step lr t = (\<lambda>a b. ss * (a / h b))"
    by (intro ext) (simp add: adam_step_factors ss_def h_def beta1_def beta2_def adam_eps_def)
  have F: "classifier_map2 (\<lambda>w u. w - ss * u) p (classifier_map2 (/) m (classifier_map h v))
        = classifier_map2 (-) p (classifier_map2 (adam_step lr t) m v)"
    by (simp add: step classifier_map2_map_right
          classifier_map2_map_right[of "(-)" p "\<lambda>u. ss * u", symmetric]
          classifier_map_map2)
  show ?thesis by (simp only: A F)
qed

lemma first_adam_step:
  "adam_step lr 1 (9 / 10 * 0 + 1 / 10 * d) (999 / 1000 * 0 + 1 / 1000 * d * d)
     = lr * d / (\<bar>d\<bar> + 1 / 10 ^ 8)"
  by (simp add: adam_step_def)

lemma Adam_first:
  "fst (Adam classifier_map classifier_map2 lr p g None)
     = classifier_map2 (\<lambda>w d. w - lr * d / (\<bar>d\<bar> + 1 / 10 ^ 8)) p g"
proof -
  have "fst (Adam classifier_map classifier_map2 lr p g None)
        = classifier_map2 (-) p
            (classifier_map2 (adam_step lr 1)
               (classifier_map2 (\<lambda>a d. 9 / 10 * a + 1 / 10 * d) (classifier_map (\<lambda>_. 0) p) g)
               (classifier_map2 (\<lambda>a d. 999 / 1000 * a + 1 / 1000 * d * d)
                  (classifier_map (\<lambda>_. 0) p) g))"
    by (subst Adam_explicit[OF refl refl refl]) simp
  also have "\<dots> = classifier_map2
                     (\<lambda>w d. w - adam_step lr 1 (9 / 10 * 0 + 1 / 10 * d)
                                   (999 / 1000 * 0 + 1 / 1000 * d * d)) p g"
    by (rule classifier_first_step)
  finally show ?thesis by (simp only: first_adam_step)
qed

lemma fc4_classifier_map2 [simp]:
  "fc4 (classifier_map2 f c g) = linear_map2 f (fc4 c) (fc4 g)"
  by (simp add: classifier_map2_def)

lemma bias_linear_map2 [simp]:
  "bias (linear_map2 f l g) = map2 f (bias l) (bias g)"
  by (simp add: linear_map2_def)

lemma last_bias_fields:
  "bias (fc4 zero_classifier) = replicate 10 0"
  "bias (fc4 (biased_classifier b)) = b"
  by (simp_all add: zero_classifier_def zero_linear_def biased_classifier_def
        flat_classifier_def)

section \<open>Claims about the parameter update\<close>

text \<open>
  C3, as stated, fails for the loops of the validation notebook, whose optimizer is Adam:
  from the same parameters, gradient and learning rate its first step differs from the
  step of plain gradient descent. With the gradient of the zero classifier on a blank
  image, the first entry of the last bias moves by about 0.003 and not by
  \<open>0.003 * 0.9\<close>.
\<close>

theorem adam_step_is_not_plain_descent:
  "bias (fc4 (fst (Adam classifier_map classifier_map2 0.003 zero_classifier
                     last_bias_gradient None))) ! 0
     = (27 / 10000) / (9 / 10 + 1 / 10 ^ 8) \<and>
   bias (fc4 (fst (SGD classifier_map2 0.003 zero_classifier last_bias_gradient ()))) ! 0
     = 27 / 10000 \<and>
   fst (Adam classifier_map classifier_map2 0.003 zero_classifier last_bias_gradient None)
     \<noteq> fst (SGD classifier_map2 0.003 zero_classifier last_bias_gradient ())"
proof -
  let ?A = "fst (Adam classifier_map classifier_map2 0.003 zero_classifier
                   last_bias_gradient None)"
  let ?B = "fst (SGD classifier_map2 0.003 zero_classifier last_bias_gradient ())"
  have b: "bias (fc4 ?B) ! 0 = 27 / 10000"
    by (simp add: SGD_def last_bias_fields last_bias_gradient_def class0_gradient_def)
  have a: "bias (fc4 ?A) ! 0 = (27 / 10000) / (9 / 10 + 1 / 10 ^ 8)"
    by (simp add: Adam_first last_bias_fields last_bias_gradient_def class0_gradient_def)
  have "bias (fc4 ?A) ! 0 \<noteq> bias (fc4 ?B) ! 0" unfolding a b by simp
  then have "?A \<noteq> ?B" by auto
  then show ?thesis using a b by blast
qed

text \<open>
  C3, amended. One pass of the training body, started with gradient buffers that are
  absent or have the gradient's shape, leaves in the buffers the gradient of this batch
  alone and changes the parameters once, after the backward pass. In the training
  notebook (SGD) the change is the specification's rule \<open>w - 0.003 * d\<close> in every entry of
  every parameter tensor, \<open>d\<close> being the entry's gradient. In the two loops of the
  validation notebook (Adam, learning rate 0.003 or 0.004) every entry moves by Adam's
  step instead: with \<open>t\<close> the number of this step, \<open>m\<close> the running mean \<open>0.9 m + 0.1 d\<close> of
  the gradient and \<open>v\<close> the running mean \<open>0.999 v + 0.001 d\<^sup>2\<close> of its square, both started
  at zero, the entry loses the learning rate times \<open>m / (1 - 0.9\<^sup>t)\<close> over the root of
  \<open>v / (1 - 0.999\<^sup>t)\<close> plus \<open>10\<^sup>-\<^sup>8\<close>. At the first step that is the learning rate
  times \<open>d / (|d| + 10\<^sup>-\<^sup>8)\<close>: about the learning rate in the direction of the gradient's
  sign, whatever its size.
\<close>

theorem update_rules_of_the_optimizers:
  assumes "train_batch (training_notebook ag) st batch = Inr (loss, st')"
    and "g = ag (training st) (draws st) (params st) batch"
    and "grad st = None \<or>
         (\<exists>old. grad st = Some old \<and> sequential_map (\<lambda>_. 0) old = sequential_map (\<lambda>_. 0) g)"
    and "S = validation_notebook tie ag' \<and> lr = 0.003 \<or>
         S = dropout_notebook tie gen ag' \<and> lr = 0.004"
    and "train_batch S s b = Inr (l, s')"
    and "g' = ag' (training s) (draws s) (params s) b"
    and "grad s = None \<or>
         (\<exists>old. grad s = Some old \<and> classifier_map (\<lambda>_. 0) old = classifier_map (\<lambda>_. 0) g')"
    and "t = (case opt s of None \<Rightarrow> 1 | Some a \<Rightarrow> step_count a + 1)"
    and "m = classifier_map2 (\<lambda>a d. 9 / 10 * a + 1 / 10 * d)
               (case opt s of None \<Rightarrow> classifier_map (\<lambda>_. 0) (params s)
                | Some a \<Rightarrow> exp_avg a) g'"
    and "v = classifier_map2 (\<lambda>a d. 999 / 1000 * a + 1 / 1000 * d * d)
               (case opt s of None \<Rightarrow> classifier_map (\<lambda>_. 0) (params s)
                | Some a \<Rightarrow> exp_avg_sq a) g'"
  shows "grad st' = Some g \<and>
         params st' = sequential_map2 (descent_rule 0.003) (params st) g \<and>
         grad s' = Some g' \<and>
         params s' = classifier_map2 (-) (params s) (classifier_map2 (adam_step lr t) m v) \<and>
         opt s' = Some \<lparr>step_count = t, exp_avg = m, exp_avg_sq = v\<rparr> \<and>
         (opt s = None \<longrightarrow>
            params s' = classifier_map2 (\<lambda>w d. w - lr * d / (\<bar>d\<bar> + 1 / 10 ^ 8)) (params s) g')"
proof -
  let ?T = "training_notebook ag"
  have u: "g = (case grad st of None \<Rightarrow> g
                | Some old \<Rightarrow> pmap2 ?T (+) (pmap ?T (\<lambda>_. 0) old) g)"
    using assms(3) by (auto simp: sequential_add_zero)
  have a: "g = autograd ?T (training st) (draws st) (params st) batch"
    by (simp add: assms(2))
  note r = train_batch_result(1,2)[OF assms(1) a u]
  have d: "(\<lambda>w d. w - 3 / 1000 * d) = descent_rule (3 / 1000)"
    by (intro ext) (simp add: descent_rule_def)
  have 1: "grad st' = Some g" by (rule r(1))
  have 2: "params st' = sequential_map2 (descent_rule 0.003) (params st) g"
    using r(2) d by (simp add: SGD_def)
  have S: "autograd S = ag'" "pmap S = classifier_map" "pmap2 S = classifier_map2"
    "optimizer S = Adam classifier_map classifier_map2 lr"
    using assms(4) by (elim disjE conjE; hypsubst; simp)+
  have u': "g' = (case grad s of None \<Rightarrow> g'
                 | Some old \<Rightarrow> pmap2 S (+) (pmap S (\<lambda>_. 0) old) g')"
    using assms(7) by (auto simp: S classifier_add_zero)
  have a': "g' = autograd S (training s) (draws s) (params s) b"
    by (simp add: S assms(6))
  note r' = train_batch_result(1,2,3)[OF assms(5) a' u']
  note e = Adam_explicit[OF assms(8,9,10), of lr]
  have 3: "grad s' = Some g'" by (rule r'(1))
  have 4: "params s' = classifier_map2 (-) (params s) (classifier_map2 (adam_step lr t) m v)"
    by (simp only: r'(2) S e fst_conv)
  have 5: "opt s' = Some \<lparr>step_count = t, exp_avg = m, exp_avg_sq = v\<rparr>"
    by (simp only: r'(3) S e snd_conv)
  have 6: "params s' = classifier_map2 (\<lambda>w d. w - lr * d / (\<bar>d\<bar> + 1 / 10 ^ 8)) (params s) g'"
    if "opt s = None"
    by (simp only: r'(2) S that Adam_first)
  show ?thesis using 1 2 3 4 5 6 by blast
qed

lemma train_batch_single:
  assumes "model S (training st) (draws st) (params st) x = Inr \<lparr>cols = 10, rows = [r]\<rparr>"
    and "criterion S = nll_loss" and "0 \<le> t" and "t < 10"
  shows "train_batch S st (x, [t]) =
         Inr (Num (- (r ! nat t)), optimizer_step S
                (loss_backward S (autograd S (training st) (draws st) (params st) (x, [t]))
                   (emit Loss (emit Forward ((zero_grad S st)
                      \<lparr>draws := draws st + (if training st then consumed S else 0)\<rparr>)))))"
  using assms(1,2) nll_loss_single[of t 10 r] assms(3,4)
  by (simp add: train_batch_def model_call_def Let_def)

theorem update_rules_of_the_optimizers_witness:
  "\<exists>st' s'.
     train_batch (training_notebook steady_gradient_sequential)
       (new_session zero_sequential ()) (\<lparr>cols = 784, rows = [replicate 784 0]\<rparr>, [0])
       = Inr (Num (ln 10), st') \<and>
     grad st' = Some last_bias_gradient_sequential \<and>
     params st' = sequential_map2 (descent_rule 0.003) zero_sequential
                    last_bias_gradient_sequential \<and>
     train_batch (validation_notebook first_largest steady_gradient)
       (new_session zero_classifier None) (blank_image, [0]) = Inr (Num (ln 10), s') \<and>
     grad s' = Some last_bias_gradient \<and>
     params s' = classifier_map2 (\<lambda>w d. w - 0.003 * d / (\<bar>d\<bar> + 1 / 10 ^ 8)) zero_classifier
                   last_bias_gradient \<and>
     bias (fc4 (params s')) ! 0 = (27 / 10000) / (9 / 10 + 1 / 10 ^ 8) \<and>
     bias (fc4 (params s')) ! 1 = - (3 / 10000) / (1 / 10 + 1 / 10 ^ 8)"
proof -
  let ?st = "new_session zero_sequential ()"
  let ?s = "new_session zero_classifier (None :: classifier adam_state option)"
  let ?x = "\<lparr>cols = 784, rows = [replicate 784 (0::real)]\<rparr>"
  have "\<exists>st'. train_batch (training_notebook steady_gradient_sequential) ?st (?x, [0])
                = Inr (Num (ln 10), st')"
    by (subst train_batch_single[where r = "replicate 10 (- ln 10)"])
       (simp_all add: Sequential_forward_zero)
  then obtain st' where 1:
    "train_batch (training_notebook steady_gradient_sequential) ?st (?x, [0])
       = Inr (Num (ln 10), st')"
    by blast
  have "\<exists>s'. train_batch (validation_notebook first_largest steady_gradient) ?s
               (blank_image, [0]) = Inr (Num (ln 10), s')"
    by (subst train_batch_single[where r = "replicate 10 (- ln 10)"])
       (simp_all add: Classifier_forward_blank)
  then obtain s' where 2:
    "train_batch (validation_notebook first_largest steady_gradient) ?s (blank_image, [0])
       = Inr (Num (ln 10), s')"
    by blast
  have r: "grad st' = Some last_bias_gradient_sequential \<and>
        params st' = sequential_map2 (descent_rule 0.003) (params ?st)
                       last_bias_gradient_sequential \<and>
        grad s' = Some last_bias_gradient \<and>
        params s' = classifier_map2 (-) (params ?s)
                      (classifier_map2 (adam_step 0.003 1)
                         (classifier_map2 (\<lambda>a d. 9 / 10 * a + 1 / 10 * d)
                            (classifier_map (\<lambda>_. 0) (params ?s)) last_bias_gradient)
                         (classifier_map2 (\<lambda>a d. 999 / 1000 * a + 1 / 1000 * d * d)
                            (classifier_map (\<lambda>_. 0) (params ?s)) last_bias_gradient)) \<and>
        opt s' = Some \<lparr>step_count = 1,
                       exp_avg = classifier_map2 (\<lambda>a d. 9 / 10 * a + 1 / 10 * d)
                            (classifier_map (\<lambda>_. 0) (params ?s)) last_bias_gradient,
                       exp_avg_sq = classifier_map2 (\<lambda>a d. 999 / 1000 * a + 1 / 1000 * d * d)
                            (classifier_map (\<lambda>_. 0) (params ?s)) last_bias_gradient\<rparr> \<and>
        (opt ?s = None \<longrightarrow>
           params s' = classifier_map2 (\<lambda>w d. w - 0.003 * d / (\<bar>d\<bar> + 1 / 10 ^ 8)) (params ?s)
                         last_bias_gradient)"
    by (rule update_rules_of_the_optimizers[OF 1 _ _ _ 2,
          where ag' = steady_gradient and gen = keep_all and tie = first_largest])
       (simp_all add: steady_gradient_def steady_gradient_sequential_def)
  have p: "params s' = classifier_map2 (\<lambda>w d. w - 0.003 * d / (\<bar>d\<bar> + 1 / 10 ^ 8))
                              zero_classifier last_bias_gradient"
    using r[THEN conjunct2, THEN conjunct2, THEN conjunct2, THEN conjunct2, THEN conjunct2]
    by simp
  have q: "grad st' = Some last_bias_gradient_sequential"
    "params st' = sequential_map2 (descent_rule 0.003) zero_sequential
                    last_bias_gradient_sequential"
    "grad s' = Some last_bias_gradient"
    using r[THEN conjunct1] r[THEN conjunct2, THEN conjunct1]
      r[THEN conjunct2, THEN conjunct2, THEN conjunct1]
    by simp_all
  have "bias (fc4 (params s')) ! 0 = (27 / 10000) / (9 / 10 + 1 / 10 ^ 8)"
    "bias (fc4 (params s')) ! 1 = - (3 / 10000) / (1 / 10 + 1 / 10 ^ 8)"
    by (simp_all add: p last_bias_fields last_bias_gradient_def class0_gradient_def)
  then show ?thesis using 1 2 q p by blast
qed

section \<open>Traces of the loops\<close>

lemma training_events_Suc:
  "training_events (Suc n) = [ZeroGrad, Forward, Loss, Backward, Step] @ training_events n"
  by (simp add: training_events_def)

lemma evaluation_events_Suc:
  "evaluation_events (Suc n) = [Forward, Loss, Accuracy] @ evaluation_events n"
  by (simp add: evaluation_events_def)

lemma train_batches_trace:
  assumes "train_batches S st r bs = Inr (r', st')"
  shows "trace st' = trace st @ training_events (length bs)"
  using assms
proof (induction bs arbitrary: st r)
  case Nil
  then show ?case by (simp add: training_events_def)
next
  case (Cons b bs)
  from Cons.prems obtain loss st1 where
    one: "train_batch S st b = Inr (loss, st1)" and
    rest: "train_batches S st1 (add r loss) bs = Inr (r', st')"
    by (auto split: sum.splits)
  show ?case
    using Cons.IH[OF rest] train_batch_trace[OF one] by (simp add: training_events_Suc)
qed

lemma validation_batches_trace:
  assumes "validation_batches S st l0 a0 bs = Inr (l, a, st')"
  shows "trace st' = trace st @ evaluation_events (length bs)"
  using assms
proof (induction bs arbitrary: st l0 a0)
  case Nil
  then show ?case by (simp add: evaluation_events_def)
next
  case (Cons b bs)
  from Cons.prems obtain log_ps st1 lb ab where
    call: "model_call S st (fst b) = Inr (log_ps, st1)" and
    rest: "validation_batches S (emit Accuracy (emit Loss st1)) (add l0 lb) (add a0 ab) bs
             = Inr (l, a, st')"
    by (auto split: sum.splits)
  show ?case
    using Cons.IH[OF rest] model_call_frame(5)[OF call] by (simp add: evaluation_events_Suc)
qed

lemma report_Print: "report e n r k l a j = Inr line \<Longrightarrow> \<exists>xs. line = Print xs"
  by (auto simp: report_def split: if_splits)

lemma dropout_epochs_trace:
  assumes "dropout_epochs S trainloader testloader epochs st es = Inr st'"
  shows "\<exists>lines. length lines = length es \<and>
           trace st' = trace st @ concat (map2 (\<lambda>e line.
             epoch_events (length (trainloader e)) (length (testloader e)) line) es lines)"
  using assms
proof (induction es arbitrary: st)
  case Nil
  then show ?case by simp
next
  case (Cons e es)
  from Cons.prems obtain r st1 l a st2 line where
    tr: "train_batches S st (Num 0) (trainloader e) = Inr (r, st1)" and
    ev: "validation_batches S (model_eval st1) (Num 0) (Num 0) (testloader e) = Inr (l, a, st2)" and
    rp: "report e epochs r (length (trainloader e)) l a (length (testloader e)) = Inr line" and
    rest: "dropout_epochs S trainloader testloader epochs (model_train (emit line st2)) es
             = Inr st'"
    by (auto split: sum.splits)
  from report_Print[OF rp] obtain xs where xs: "line = Print xs" by blast
  from Cons.IH[OF rest] obtain lines where
    lines: "length lines = length es"
      "trace st' = trace (model_train (emit line st2)) @ concat (map2 (\<lambda>e line.
             epoch_events (length (trainloader e)) (length (testloader e)) line) es lines)"
    by blast
  have "trace (model_train (emit line st2))
        = trace st @ epoch_events (length (trainloader e)) (length (testloader e)) xs"
    using train_batches_trace[OF tr] validation_batches_trace[OF ev]
    by (simp add: epoch_events_def xs)
  then have "trace st' = trace st @ concat (map2 (\<lambda>e line.
             epoch_events (length (trainloader e)) (length (testloader e)) line)
               (e # es) (xs # lines))"
    using lines(2) by simp
  moreover have "length (xs # lines) = length (e # es)" using lines(1) by simp
  ultimately show ?case by blast
qed

lemma zeroed_training_events:
  "zeroed_before_backward z (training_events n @ es)
     = (if n = 0 then zeroed_before_backward z es else zeroed_before_backward False es)"
  by (induction n arbitrary: z) (simp_all add: training_events_Suc, simp add: training_events_def)

lemma zeroed_evaluation_events:
  "zeroed_before_backward z (evaluation_events n @ es) = zeroed_before_backward z es"
  by (induction n) (simp_all add: evaluation_events_Suc, simp add: evaluation_events_def)

lemma zeroed_epochs:
  "length lines = length es \<Longrightarrow>
   zeroed_before_backward False (concat (map2 (\<lambda>e line.
      epoch_events (length (trainloader e)) (length (testloader e)) line) es lines))"
proof (induction es arbitrary: lines)
  case Nil
  then show ?case by simp
next
  case (Cons e es)
  then obtain l ls where "lines = l # ls" "length ls = length es"
    by (cases lines) auto
  then show ?case
    using Cons.IH[of ls]
    by (simp add: epoch_events_def zeroed_training_events zeroed_evaluation_events)
qed

lemma dropout_loop_trace:
  assumes "dropout_loop S trainloader testloader epochs st = Inr st'"
  shows "\<exists>lines. length lines = epochs \<and>
           trace st' = trace st @ concat (map2 (\<lambda>e line.
             epoch_events (length (trainloader e)) (length (testloader e)) line)
               [0..<epochs] lines) \<and>
           zeroed_before_backward False (drop (length (trace st)) (trace st'))"
proof -
  from dropout_epochs_trace[OF assms[unfolded dropout_loop_def]] obtain lines where
    lines: "length lines = length [0..<epochs]"
      "trace st' = trace st @ concat (map2 (\<lambda>e line.
             epoch_events (length (trainloader e)) (length (testloader e)) line)
               [0..<epochs] lines)"
    by blast
  have "zeroed_before_backward False (drop (length (trace st)) (trace st'))"
    using zeroed_epochs[OF lines(1), of trainloader testloader] by (simp add: lines(2))
  then show ?thesis using lines by auto
qed


lemma flat_train_batches_trace:
  assumes "flat_train_batches S st r bs = Inr (r', st')"
  shows "trace st' = trace st @ training_events (length bs)"
  using assms
proof (induction bs arbitrary: st r)
  case Nil
  then show ?case by (simp add: training_events_def)
next
  case (Cons b bs)
  from Cons.prems obtain images loss st1 where
    one: "train_batch S st (images, snd b) = Inr (loss, st1)" and
    rest: "flat_train_batches S st1 (add r loss) bs = Inr (r', st')"
    by (auto split: sum.splits)
  show ?case
    using Cons.IH[OF rest] train_batch_trace[OF one] by (simp add: training_events_Suc)
qed

lemma training_epochs_trace:
  assumes "training_epochs S trainloader st es = Inr st'"
  shows "\<exists>lines. length lines = length es \<and>
           trace st' = trace st @ concat (map2 (\<lambda>e line.
             training_events (length (trainloader e)) @ [Print line]) es lines)"
  using assms
proof (induction es arbitrary: st)
  case Nil
  then show ?case by simp
next
  case (Cons e es)
  from Cons.prems obtain r st1 where
    tr: "flat_train_batches S st (Num 0) (trainloader e) = Inr (r, st1)" and
    rest: "training_epochs S trainloader
             (emit (Print [divide_by r (length (trainloader e))]) st1) es = Inr st'"
    by (auto split: sum.splits if_splits)
  let ?line = "[divide_by r (length (trainloader e))]"
  from Cons.IH[OF rest] obtain lines where
    lines: "length lines = length es"
      "trace st' = trace (emit (Print ?line) st1) @ concat (map2 (\<lambda>e line.
             training_events (length (trainloader e)) @ [Print line]) es lines)"
    by blast
  have "trace st' = trace st @ concat (map2 (\<lambda>e line.
             training_events (length (trainloader e)) @ [Print line]) (e # es) (?line # lines))"
    using lines(2) flat_train_batches_trace[OF tr] by simp
  moreover have "length (?line # lines) = length (e # es)" using lines(1) by simp
  ultimately show ?case by blast
qed

lemma zeroed_training_epochs:
  "length lines = length es \<Longrightarrow>
   zeroed_before_backward False (concat (map2 (\<lambda>e line.
      training_events (length (trainloader e)) @ [Print line]) es lines))"
proof (induction es arbitrary: lines)
  case Nil
  then show ?case by simp
next
  case (Cons e es)
  then obtain l ls where "lines = l # ls" "length ls = length es"
    by (cases lines) auto
  then show ?case
    using Cons.IH[of ls] by (simp add: zeroed_training_events)
qed

lemma training_loop_trace:
  assumes "training_loop S trainloader epochs st = Inr st'"
  shows "\<exists>lines. length lines = epochs \<and>
           trace st' = trace st @ concat (map2 (\<lambda>e line.
             training_events (length (trainloader e)) @ [Print line]) [0..<epochs] lines) \<and>
           zeroed_before_backward False (drop (length (trace st)) (trace st'))"
proof -
  from training_epochs_trace[OF assms[unfolded training_loop_def]] obtain lines where
    lines: "length lines = length [0..<epochs]"
      "trace st' = trace st @ concat (map2 (\<lambda>e line.
             training_events (length (trainloader e)) @ [Print line]) [0..<epochs] lines)"
    by blast
  have "zeroed_before_backward False (drop (length (trace st)) (trace st'))"
    using zeroed_training_epochs[OF lines(1), of trainloader] by (simp add: lines(2))
  then show ?thesis using lines by auto
qed

section \<open>The training state through the loops\<close>

lemma train_batches_state:
  assumes "train_batches S st r bs = Inr (r', st')"
  shows "training_state st' = foldl (train_step S (training st)) (training_state st) bs \<and>
         training st' = training st"
  using assms
proof (induction bs arbitrary: st r)
  case Nil
  then show ?case by simp
next
  case (Cons b bs)
  from Cons.prems obtain loss st1 where
    one: "train_batch S st b = Inr (loss, st1)" and
    rest: "train_batches S st1 (add r loss) bs = Inr (r', st')"
    by (auto split: sum.splits)
  show ?case
    using Cons.IH[OF rest] train_batch_state[OF one] by simp
qed

lemma flat_train_batches_state:
  assumes "flat_train_batches S st r bs = Inr (r', st')"
  shows "training_state st'
           = foldl (train_step S (training st)) (training_state st) (map flattened bs) \<and>
         training st' = training st"
  using assms
proof (induction bs arbitrary: st r)
  case Nil
  then show ?case by simp
next
  case (Cons b bs)
  from Cons.prems obtain images loss st1 where
    v: "view_flat (fst b) = Inr images" and
    one: "train_batch S st (images, snd b) = Inr (loss, st1)" and
    rest: "flat_train_batches S st1 (add r loss) bs = Inr (r', st')"
    by (auto split: sum.splits)
  have "flattened b = (images, snd b)" by (simp add: flattened_def v)
  then show ?case
    using Cons.IH[OF rest] train_batch_state[OF one] by simp
qed

lemma validation_batches_state:
  assumes "validation_batches S st l0 a0 bs = Inr (l, a, st')" "\<not> training st"
  shows "training_state st' = training_state st"
  using validation_batches_frame[OF assms(1)] assms(2) by (simp add: training_state_def)

lemma training_state_switch [simp]:
  "training_state (emit e st) = training_state st"
  "training_state (model_eval st) = training_state st"
  "training_state (model_train st) = training_state st"
  by (simp_all add: training_state_def)

lemma dropout_epochs_state:
  assumes "dropout_epochs S trainloader testloader epochs st es = Inr st'"
  shows "training_state st'
           = evaluated_epochs S trainloader (training st) (training_state st) es"
  using assms
proof (induction es arbitrary: st)
  case Nil
  then show ?case by simp
next
  case (Cons e es)
  from Cons.prems obtain r st1 l a st2 line where
    tr: "train_batches S st (Num 0) (trainloader e) = Inr (r, st1)" and
    ev: "validation_batches S (model_eval st1) (Num 0) (Num 0) (testloader e)
           = Inr (l, a, st2)" and
    rest: "dropout_epochs S trainloader testloader epochs (model_train (emit line st2)) es
             = Inr st'"
    by (auto split: sum.splits)
  have "training_state st2 = training_state st1"
    using validation_batches_state[OF ev] by simp
  then show ?case
    using Cons.IH[OF rest] train_batches_state[OF tr] by simp
qed

lemma training_epochs_state:
  assumes "training_epochs S trainloader st es = Inr st'"
  shows "training_state st' = plain_epochs S trainloader (training st) (training_state st) es"
  using assms
proof (induction es arbitrary: st)
  case Nil
  then show ?case by (simp add: plain_epochs_def)
next
  case (Cons e es)
  from Cons.prems obtain r st1 where
    tr: "flat_train_batches S st (Num 0) (trainloader e) = Inr (r, st1)" and
    rest: "training_epochs S trainloader
             (emit (Print [divide_by r (length (trainloader e))]) st1) es = Inr st'"
    by (auto split: sum.splits if_splits)
  show ?case
    using Cons.IH[OF rest] flat_train_batches_state[OF tr] by (simp add: plain_epochs_def)
qed

section \<open>Claims about the training loop\<close>

text \<open>
  C1. When the loop of the model with dropout completes, it has run exactly \<open>epochs\<close>
  epochs (one report each), and the calls it made are, epoch after epoch: for every
  training batch zero gradients, forward, loss, backward, update, in this order; only
  then the evaluation batches, forward with loss and accuracy accumulated and no other
  call; so every backward pass comes after a reset of the gradient buffers that no
  other backward pass has used. What the calls did is what the specification's machine
  does: the parameters, the gradient buffers, the optimizer's state and the number of
  masks drawn at the end are those the machine reaches by taking the training batches
  of the epochs in order, each batch setting the buffers to zero, adding its gradient to
  them and updating the parameters from them, the evaluation phases changing nothing.
  The loop of the training notebook does the same without an evaluation phase: its
  epochs are the training batches, flattened, and a report.
\<close>

theorem epochs_train_then_evaluate:
  assumes "dropout_loop S trainloader testloader epochs st = Inr st'"
    and "training_loop T loader n u = Inr u'"
  shows "(\<exists>lines. length lines = epochs \<and>
            trace st' = trace st @ concat (map2 (\<lambda>e line.
              epoch_events (length (trainloader e)) (length (testloader e)) line)
                [0..<epochs] lines) \<and>
            zeroed_before_backward False (drop (length (trace st)) (trace st'))) \<and>
         training_state st'
           = evaluated_epochs S trainloader (training st) (training_state st) [0..<epochs] \<and>
         (\<exists>lines. length lines = n \<and>
            trace u' = trace u @ concat (map2 (\<lambda>e line.
              training_events (length (loader e)) @ [Print line]) [0..<n] lines) \<and>
            zeroed_before_backward False (drop (length (trace u)) (trace u'))) \<and>
         training_state u' = plain_epochs T loader (training u) (training_state u) [0..<n]"
proof (intro conjI)
  show "\<exists>lines. length lines = epochs \<and>
            trace st' = trace st @ concat (map2 (\<lambda>e line.
              epoch_events (length (trainloader e)) (length (testloader e)) line)
                [0..<epochs] lines) \<and>
            zeroed_before_backward False (drop (length (trace st)) (trace st'))"
    using assms(1) by (rule dropout_loop_trace)
  show "training_state st'
          = evaluated_epochs S trainloader (training st) (training_state st) [0..<epochs]"
    using assms(1) unfolding dropout_loop_def by (rule dropout_epochs_state)
  show "\<exists>lines. length lines = n \<and>
            trace u' = trace u @ concat (map2 (\<lambda>e line.
              training_events (length (loader e)) @ [Print line]) [0..<n] lines) \<and>
            zeroed_before_backward False (drop (length (trace u)) (trace u'))"
    using assms(2) by (rule training_loop_trace)
  show "training_state u' = plain_epochs T loader (training u) (training_state u) [0..<n]"
    using assms(2) unfolding training_loop_def by (rule training_epochs_state)
qed

section \<open>Runs in which only the last bias moves\<close>

lemma linear_map_uniform:
  "linear_map f ((uniform_linear i out w w')\<lparr>bias := b\<rparr>)
     = (uniform_linear i out (f w) (f w))\<lparr>bias := map f b\<rparr>"
  "linear_map f (uniform_linear i out w w) = uniform_linear i out (f w) (f w)"
  by (simp_all add: linear_map_def uniform_linear_def)

lemma linear_map2_uniform:
  "linear_map2 f ((uniform_linear i out w w')\<lparr>bias := b\<rparr>)
       ((uniform_linear i out u u')\<lparr>bias := c\<rparr>)
     = (uniform_linear i out (f w u) (f w u))\<lparr>bias := map2 f b c\<rparr>"
  "linear_map2 f (uniform_linear i out w w) (uniform_linear i out u u)
     = uniform_linear i out (f w u) (f w u)"
  by (simp_all add: linear_map2_def uniform_linear_def)

lemma classifier_map_flat:
  "classifier_map f (flat_classifier w b) = flat_classifier (f w) (map f b)"
  by (simp add: classifier_map_def flat_classifier_def linear_map_uniform)

lemma classifier_map2_flat:
  "classifier_map2 f (flat_classifier w b) (flat_classifier u c)
     = flat_classifier (f w u) (map2 f b c)"
  by (simp add: classifier_map2_def flat_classifier_def linear_map2_uniform)

lemma is_biasedI: "length b = 10 \<Longrightarrow> is_biased (biased_classifier b)"
  by (simp add: is_biased_def last_bias_fields)

lemma is_biasedE:
  assumes "is_biased c"
  obtains b where "length b = 10" "c = biased_classifier b"
  using assms by (auto simp: is_biased_def)

lemma is_biased_map:
  assumes "f 0 = 0" "is_biased c"
  shows "is_biased (classifier_map f c)"
proof -
  from assms(2) obtain b where b: "length b = 10" "c = biased_classifier b"
    by (rule is_biasedE)
  have "classifier_map f c = biased_classifier (map f b)"
    by (simp add: b(2) biased_classifier_def classifier_map_flat assms(1))
  then show ?thesis using b(1) by (simp add: is_biasedI)
qed

lemma is_biased_map2:
  assumes "f 0 0 = 0" "is_biased c" "is_biased g"
  shows "is_biased (classifier_map2 f c g)"
proof -
  from assms(2) obtain b where b: "length b = 10" "c = biased_classifier b"
    by (rule is_biasedE)
  from assms(3) obtain b' where b': "length b' = 10" "g = biased_classifier b'"
    by (rule is_biasedE)
  have "classifier_map2 f c g = biased_classifier (map2 f b b')"
    by (simp add: b(2) b'(2) biased_classifier_def classifier_map2_flat assms(1))
  then show ?thesis using b(1) b'(1) by (simp add: is_biasedI)
qed

lemma Adam_is_biased:
  assumes "is_biased p" "is_biased g"
    and "case s of None \<Rightarrow> True | Some a \<Rightarrow> is_biased (exp_avg a) \<and> is_biased (exp_avg_sq a)"
  shows "is_biased (fst (Adam classifier_map classifier_map2 lr p g s))"
    and "case snd (Adam classifier_map classifier_map2 lr p g s) of None \<Rightarrow> True
         | Some a \<Rightarrow> is_biased (exp_avg a) \<and> is_biased (exp_avg_sq a)"
proof -
  define t where "t = (case s of None \<Rightarrow> 1 | Some a \<Rightarrow> step_count a + 1)"
  define m where "m = classifier_map2 (\<lambda>a d. 9 / 10 * a + 1 / 10 * d)
               (case s of None \<Rightarrow> classifier_map (\<lambda>_. 0) p | Some a \<Rightarrow> exp_avg a) g"
  define v where "v = classifier_map2 (\<lambda>a d. 999 / 1000 * a + 1 / 1000 * d * d)
               (case s of None \<Rightarrow> classifier_map (\<lambda>_. 0) p | Some a \<Rightarrow> exp_avg_sq a) g"
  note e = Adam_explicit[OF t_def m_def v_def, of lr]
  have z: "is_biased (classifier_map (\<lambda>_. 0) p)"
    using assms(1) by (intro is_biased_map) simp_all
  have m0: "is_biased (case s of None \<Rightarrow> classifier_map (\<lambda>_. 0) p | Some a \<Rightarrow> exp_avg a)"
    and v0: "is_biased (case s of None \<Rightarrow> classifier_map (\<lambda>_. 0) p | Some a \<Rightarrow> exp_avg_sq a)"
    using assms(3) z by (cases s; simp)+
  have m: "is_biased m" unfolding m_def using m0 assms(2) by (intro is_biased_map2) simp_all
  have v: "is_biased v" unfolding v_def using v0 assms(2) by (intro is_biased_map2) simp_all
  have s: "is_biased (classifier_map2 (adam_step lr t) m v)"
    by (rule is_biased_map2[OF _ m v]) (simp add: adam_step_def)
  have "is_biased (classifier_map2 (-) p (classifier_map2 (adam_step lr t) m v))"
    by (rule is_biased_map2[OF _ assms(1) s]) simp
  then show "is_biased (fst (Adam classifier_map classifier_map2 lr p g s))"
    by (simp add: e)
  show "case snd (Adam classifier_map classifier_map2 lr p g s) of None \<Rightarrow> True
         | Some a \<Rightarrow> is_biased (exp_avg a) \<and> is_biased (exp_avg_sq a)"
    using m v by (simp add: e)
qed

lemma is_biased_gradient: "is_biased last_bias_gradient"
  by (simp add: last_bias_gradient_def class0_gradient_def is_biasedI)

lemma quiet_batchE:
  assumes "quiet_batch b"
  obtains t where "b = (blank_image, [t])" "0 \<le> t" "t < 10"
proof -
  obtain x ts where b: "b = (x, ts)" by (cases b)
  then obtain t where "ts = [t]" using assms by (cases ts) (auto simp: quiet_batch_def)
  then show ?thesis using that assms b by (auto simp: quiet_batch_def)
qed

lemma train_batch_bias_only:
  assumes "bias_only st" and "quiet_batch b"
  shows "\<exists>loss st'. train_batch (dropout_notebook tie gen steady_gradient) st b
                       = Inr (loss, st') \<and>
               bias_only st' \<and> training st' = training st"
proof -
  let ?S = "dropout_notebook tie gen steady_gradient"
  from assms(2) obtain t where b: "b = (blank_image, [t])" "0 \<le> t" "t < 10"
    by (rule quiet_batchE)
  have p: "is_biased (params st)" using assms(1) by (simp add: bias_only_def)
  then obtain c where c: "length c = 10" "params st = biased_classifier c"
    by (rule is_biasedE)
  have fw: "model ?S (training st) (draws st) (params st) blank_image
              = Inr \<lparr>cols = 10, rows = [log_softmax_row c]\<rparr>"
    by (simp add: c Classifier_dropout_forward_biased)
  from train_batch_single[OF fw _ b(2,3)]
  obtain loss st' where run: "train_batch ?S st b = Inr (loss, st')"
    by (simp add: b(1))
  define u where "u = (case grad st of None \<Rightarrow> last_bias_gradient
       | Some old \<Rightarrow> pmap2 ?S (+) (pmap ?S (\<lambda>_. 0) old) last_bias_gradient)"
  have g: "last_bias_gradient = autograd ?S (training st) (draws st) (params st) b"
    by (simp add: steady_gradient_def)
  note r = train_batch_result[OF run g u_def]
  have u: "is_biased u"
  proof (cases "grad st")
    case None
    then show ?thesis by (simp add: u_def is_biased_gradient)
  next
    case (Some old)
    then have "is_biased old" using assms(1) by (simp add: bias_only_def)
    then have zo: "is_biased (classifier_map (\<lambda>_. 0) old)" by (intro is_biased_map) simp_all
    have "is_biased (classifier_map2 (+) (classifier_map (\<lambda>_. 0) old) last_bias_gradient)"
      by (rule is_biased_map2[OF _ zo is_biased_gradient]) simp
    then show ?thesis by (simp add: u_def Some)
  qed
  have o: "case opt st of None \<Rightarrow> True
           | Some a \<Rightarrow> is_biased (exp_avg a) \<and> is_biased (exp_avg_sq a)"
    using assms(1) by (simp add: bias_only_def)
  note a = Adam_is_biased[OF p u o, of "0.004"]
  have "bias_only st'"
    using a u by (simp add: bias_only_def r)
  then show ?thesis using run r(4) by blast
qed

lemma train_batches_bias_only:
  assumes "bias_only st" and "list_all quiet_batch bs"
  shows "\<exists>r st'. train_batches (dropout_notebook tie gen steady_gradient) st r0 bs
                    = Inr (r, st') \<and>
               bias_only st' \<and> training st' = training st"
  using assms
proof (induction bs arbitrary: st r0)
  case Nil
  then show ?case by simp
next
  case (Cons b bs)
  from Cons.prems obtain loss st1 where
    one: "train_batch (dropout_notebook tie gen steady_gradient) st b = Inr (loss, st1)"
      "bias_only st1" "training st1 = training st"
    using train_batch_bias_only[of st b tie gen] by auto
  from Cons.IH[OF one(2), of "add r0 loss"] Cons.prems(2) obtain r st' where
    "train_batches (dropout_notebook tie gen steady_gradient) st1 (add r0 loss) bs
       = Inr (r, st')"
    "bias_only st'" "training st' = training st1"
    by auto
  then show ?case using one by simp
qed

lemma validation_batches_bias_only:
  assumes "bias_only st" and "list_all quiet_batch bs"
  shows "\<exists>l a st'. validation_batches (dropout_notebook tie gen steady_gradient) st l0 a0 bs
                     = Inr (l, a, st') \<and> bias_only st'"
  using assms
proof (induction bs arbitrary: st l0 a0)
  case Nil
  then show ?case by simp
next
  case (Cons b bs)
  let ?S = "dropout_notebook tie gen steady_gradient"
  from Cons.prems(2) obtain t where b: "b = (blank_image, [t])" "0 \<le> t" "t < 10"
    by (auto elim: quiet_batchE)
  have "is_biased (params st)" using Cons.prems(1) by (simp add: bias_only_def)
  then obtain c where c: "length c = 10" "params st = biased_classifier c"
    by (rule is_biasedE)
  have fw: "model ?S (training st) (draws st) (params st) blank_image
              = Inr \<lparr>cols = 10, rows = [log_softmax_row c]\<rparr>"
    by (simp add: c Classifier_dropout_forward_biased)
  let ?st1 = "emit Accuracy (emit Loss (emit Forward
              (st\<lparr>draws := draws st + (if training st then consumed ?S else 0)\<rparr>)))"
  note step = validation_step_single[OF fw _ b(2,3), of l0 a0 bs]
  have "bias_only ?st1" using Cons.prems(1) by (simp add: bias_only_def)
  from Cons.IH[OF this] Cons.prems(2)
  show ?case unfolding b(1) using step by auto
qed

lemma dropout_epochs_bias_only:
  assumes "bias_only st"
    and "\<And>e. trainloader e \<noteq> [] \<and> list_all quiet_batch (trainloader e)"
    and "\<And>e. testloader e \<noteq> [] \<and> list_all quiet_batch (testloader e)"
  shows "\<exists>st'. dropout_epochs (dropout_notebook tie gen steady_gradient) trainloader testloader
                 epochs st es = Inr st'"
  using assms(1)
proof (induction es arbitrary: st)
  case Nil
  then show ?case by simp
next
  case (Cons e es)
  let ?S = "dropout_notebook tie gen steady_gradient"
  obtain r st1 where tr: "train_batches ?S st (Num 0) (trainloader e) = Inr (r, st1)"
      "bias_only st1"
    using train_batches_bias_only[OF Cons.prems, of "trainloader e" tie gen "Num 0"] assms(2)
    by blast
  have "bias_only (model_eval st1)" using tr(2) by (simp add: bias_only_def)
  then obtain l a st2 where
    ev: "validation_batches ?S (model_eval st1) (Num 0) (Num 0) (testloader e) = Inr (l, a, st2)"
      "bias_only st2"
    using validation_batches_bias_only[of "model_eval st1" "testloader e" tie gen] assms(3)
    by blast
  obtain line where
    rp: "report e epochs r (length (trainloader e)) l a (length (testloader e)) = Inr line"
    using assms(2)[of e] assms(3)[of e] by (simp add: report_def)
  have "bias_only (model_train (emit line st2))" using ev(2) by (simp add: bias_only_def)
  from Cons.IH[OF this] show ?case by (simp add: tr(1) ev(1) rp)
qed

lemma linear_map2_zero:
  "f 0 0 = 0 \<Longrightarrow> linear_map2 f (zero_linear i out) (zero_linear i out) = zero_linear i out"
  "f 0 0 = 0 \<Longrightarrow>
   linear_map2 f ((zero_linear i out)\<lparr>bias := a\<rparr>) ((zero_linear i out)\<lparr>bias := b\<rparr>)
     = (zero_linear i out)\<lparr>bias := map2 f a b\<rparr>"
  by (simp_all add: zero_is_uniform linear_map2_uniform)

lemma sequential_map2_biased:
  assumes "f 0 0 = 0"
  shows "sequential_map2 f (biased_sequential a) (biased_sequential b)
           = biased_sequential (map2 f a b)"
  using assms
  by (simp add: sequential_map2_def biased_sequential_def Sequential_def linear_map2_zero)

lemma train_batch_sequential:
  assumes "params st = biased_sequential c" and "length c = 10"
    and "grad st = None \<or> grad st = Some last_bias_gradient_sequential"
    and "0 \<le> t" and "t < 10"
  shows "\<exists>loss st'.
           train_batch (training_notebook steady_gradient_sequential) st
             (\<lparr>cols = 784, rows = [replicate 784 0]\<rparr>, [t]) = Inr (loss, st') \<and>
           params st' = biased_sequential (map2 (descent_rule 0.003) c class0_gradient) \<and>
           grad st' = Some last_bias_gradient_sequential"
proof -
  let ?T = "training_notebook steady_gradient_sequential"
  let ?x = "\<lparr>cols = 784, rows = [replicate 784 (0::real)]\<rparr>"
  have fw: "model ?T (training st) (draws st) (params st) ?x
              = Inr \<lparr>cols = 10, rows = [log_softmax_row c]\<rparr>"
    by (simp add: assms(1) Sequential_forward_biased[OF assms(2)])
  from train_batch_single[OF fw _ assms(4,5)]
  obtain loss st' where run: "train_batch ?T st (?x, [t]) = Inr (loss, st')"
    by simp
  have g: "last_bias_gradient_sequential
             = autograd ?T (training st) (draws st) (params st) (?x, [t])"
    by (simp add: steady_gradient_sequential_def)
  have u: "last_bias_gradient_sequential =
      (case grad st of None \<Rightarrow> last_bias_gradient_sequential
       | Some old \<Rightarrow> pmap2 ?T (+) (pmap ?T (\<lambda>_. 0) old) last_bias_gradient_sequential)"
    using assms(3) by (auto simp: sequential_add_zero)
  note r = train_batch_result(1,2)[OF run g u]
  have "params st' = biased_sequential (map2 (descent_rule 0.003) c class0_gradient)"
    using sequential_map2_biased[of "descent_rule 0.003" c class0_gradient]
    by (simp add: r(2) SGD_def assms(1) last_bias_gradient_sequential_def
          descent_rule_def[abs_def])
  then show ?thesis using run r(1) by blast
qed

lemma zero_sequential_biased: "zero_sequential = biased_sequential (replicate 10 0)"
  by (simp add: zero_sequential_def biased_sequential_def zero_linear_def)

theorem epochs_train_then_evaluate_witness:
  "\<exists>st' lines u' line.
     dropout_loop (dropout_notebook first_largest keep_all steady_gradient)
       (\<lambda>e. [(blank_image, [0]), (blank_image, [3])]) (\<lambda>e. [(blank_image, [3])])
       2 (new_session zero_classifier None) = Inr st' \<and>
     length lines = 2 \<and>
     trace st' = concat (map2 (\<lambda>e line. epoch_events 2 1 line) [0..<2] lines) \<and>
     zeroed_before_backward False (trace st') \<and>
     training_state st'
       = evaluated_epochs (dropout_notebook first_largest keep_all steady_gradient)
           (\<lambda>e. [(blank_image, [0]), (blank_image, [3])]) True
           (zero_classifier, None, None, 0) [0..<2] \<and>
     grad st' = Some last_bias_gradient \<and> draws st' = 12 \<and>
     (\<exists>s'. dropout_loop (dropout_notebook first_largest keep_all steady_gradient)
             (\<lambda>e. [(blank_image, [0])]) (\<lambda>e. [(blank_image, [3])])
             1 (new_session zero_classifier None) = Inr s' \<and>
           params s' = classifier_map2 (\<lambda>w d. w - 0.004 * d / (\<bar>d\<bar> + 1 / 10 ^ 8))
                         zero_classifier last_bias_gradient \<and>
           bias (fc4 (params s')) ! 0 = (36 / 10000) / (9 / 10 + 1 / 10 ^ 8)) \<and>
     training_loop (training_notebook steady_gradient_sequential)
       (\<lambda>e. [(blank_image, [0]), (blank_image, [3])]) 1 (new_session zero_sequential ())
       = Inr u' \<and>
     trace u' = [ZeroGrad, Forward, Loss, Backward, Step,
                 ZeroGrad, Forward, Loss, Backward, Step, Print line] \<and>
     grad u' = Some last_bias_gradient_sequential \<and>
     params u' = sequential_map2 (descent_rule 0.003)
                   (sequential_map2 (descent_rule 0.003) zero_sequential
                      last_bias_gradient_sequential)
                   last_bias_gradient_sequential"
proof -
  let ?S = "dropout_notebook first_largest keep_all steady_gradient"
  let ?tl = "\<lambda>e::nat. [(blank_image, [0::int]), (blank_image, [3])]"
  let ?vl = "\<lambda>e::nat. [(blank_image, [3::int])]"
  let ?st = "new_session zero_classifier (None :: classifier adam_state option)"
  let ?T = "training_notebook steady_gradient_sequential"
  let ?u = "new_session zero_sequential ()"
  let ?x = "\<lparr>cols = 784, rows = [replicate 784 (0::real)]\<rparr>"
  let ?g = "last_bias_gradient_sequential"
  have q: "quiet_batch (blank_image, [0])" "quiet_batch (blank_image, [3])"
    by (simp_all add: quiet_batch_def)
  have "bias_only ?st" by (simp add: bias_only_def zero_is_biased is_biasedI)
  from dropout_epochs_bias_only[OF this, of ?tl ?vl first_largest keep_all 2 "[0..<2]"] q
  obtain st' where run: "dropout_loop ?S ?tl ?vl 2 ?st = Inr st'"
    unfolding dropout_loop_def by auto
  from train_batch_sequential[of ?u "replicate 10 0" 0]
  obtain l1 u1 where 1: "train_batch ?T ?u (?x, [0]) = Inr (l1, u1)"
      "params u1 = biased_sequential (map2 (descent_rule 0.003) (replicate 10 0) class0_gradient)"
      "grad u1 = Some ?g"
    by (auto simp: zero_sequential_biased)
  have len: "length (map2 (descent_rule 0.003) (replicate 10 0) class0_gradient) = 10"
    by (simp add: class0_gradient_def)
  from train_batch_sequential[OF 1(2) len, of 3]
  obtain l2 u2 where 2: "train_batch ?T u1 (?x, [3]) = Inr (l2, u2)"
    using 1(3) by auto
  have "\<exists>u'. training_loop ?T ?tl 1 ?u = Inr u'"
    by (simp add: training_loop_def view_flat_blank 1(1) 2)
  then obtain u' where run': "training_loop ?T ?tl 1 ?u = Inr u'" by blast
  note t = epochs_train_then_evaluate[OF run run']
  from t[THEN conjunct1] obtain lines where
    a: "length lines = 2"
      "trace st' = trace ?st @ concat (map2 (\<lambda>e line.
         epoch_events (length (?tl e)) (length (?vl e)) line) [0..<2] lines)"
      "zeroed_before_backward False (drop (length (trace ?st)) (trace st'))"
    by blast
  from t[THEN conjunct2, THEN conjunct2, THEN conjunct1] obtain ls where
    b: "length ls = 1"
      "trace u' = trace ?u @ concat (map2 (\<lambda>e line.
         training_events (length (?tl e)) @ [Print line]) [0..<1] ls)"
    by blast
  have m: "training_state st' = evaluated_epochs ?S ?tl True (zero_classifier, None, None, 0)
             [0..<2]"
    using t[THEN conjunct2, THEN conjunct1] by (simp add: training_state_def)
  have m': "training_state u' = plain_epochs ?T ?tl True (zero_sequential, None, (), 0) [0..<1]"
    using t[THEN conjunct2, THEN conjunct2, THEN conjunct2] by (simp add: training_state_def)
  have "fst (snd (training_state st')) = Some last_bias_gradient"
    "snd (snd (snd (training_state st'))) = 12"
    by (simp_all add: m numeral_2_eq_2 train_step_def Let_def steady_gradient_def
          classifier_add_zero)
  then have gd: "grad st' = Some last_bias_gradient" "draws st' = 12"
    by (simp_all add: training_state_def)
  have "training_state u'
        = (sequential_map2 (descent_rule 0.003)
             (sequential_map2 (descent_rule 0.003) zero_sequential ?g) ?g, Some ?g, (), 0)"
    by (simp add: m' plain_epochs_def train_step_def Let_def flattened_def view_flat_blank
          steady_gradient_sequential_def sequential_add_zero SGD_def
          descent_rule_def[abs_def])
  then have pu: "grad u' = Some ?g"
    "params u' = sequential_map2 (descent_rule 0.003)
                   (sequential_map2 (descent_rule 0.003) zero_sequential ?g) ?g"
    by (simp_all add: training_state_def)
  let ?sl = "\<lambda>e::nat. [(blank_image, [0::int])]"
  from dropout_epochs_bias_only[OF \<open>bias_only ?st\<close>, of ?sl ?vl first_largest keep_all 1
      "[0..<1]"] q
  obtain s' where short: "dropout_loop ?S ?sl ?vl 1 ?st = Inr s'"
    unfolding dropout_loop_def by auto
  have "training_state s' = evaluated_epochs ?S ?sl True (zero_classifier, None, None, 0)
          [0..<1]"
    using epochs_train_then_evaluate[OF short run', THEN conjunct2, THEN conjunct1]
    by (simp add: training_state_def)
  then have "fst (training_state s')
               = fst (Adam classifier_map classifier_map2 0.004 zero_classifier
                        last_bias_gradient None)"
    by (simp add: train_step_def Let_def steady_gradient_def)
  then have ps: "params s' = classifier_map2 (\<lambda>w d. w - 0.004 * d / (\<bar>d\<bar> + 1 / 10 ^ 8))
                              zero_classifier last_bias_gradient"
    by (simp add: training_state_def Adam_first)
  have pb: "bias (fc4 (params s')) ! 0 = (36 / 10000) / (9 / 10 + 1 / 10 ^ 8)"
    by (simp add: ps last_bias_fields last_bias_gradient_def class0_gradient_def)
  from b(1) obtain line where "ls = [line]" by (cases ls) auto
  then have tu: "trace u' = [ZeroGrad, Forward, Loss, Backward, Step,
                             ZeroGrad, Forward, Loss, Backward, Step, Print line]"
    using b(2) by (simp add: training_events_def numeral_2_eq_2)
  have ts: "trace st' = concat (map2 (\<lambda>e line. epoch_events 2 1 line) [0..<2] lines)"
    using a(2) by (simp add: numeral_2_eq_2)
  have z: "zeroed_before_backward False (trace st')"
    using a(3) by simp
  show ?thesis using run run' a(1) ts z m gd short ps pb tu pu by blast
qed

end
